theory Spec2Isabelle
  imports Complex_Main
begin

section \<open>Strings of the source language\<close>

text \<open>
  A Python \<open>str\<close> is a sequence of Unicode code points, so a string is modelled as a
  list of code points (natural numbers) and not as a list of bytes: \<open>str.strip\<close> removes
  code points such as U+3000 that are several bytes in UTF-8. \<open>py\<close> embeds an ASCII
  literal.
\<close>

type_synonym pystr = "nat list"

definition py :: "string \<Rightarrow> pystr" where
  "py s = map of_char s"

text \<open>The code points for which \<open>str.isspace\<close> holds, which \<open>str.strip()\<close> removes.\<close>

definition isspace :: "nat \<Rightarrow> bool" where
  "isspace c = (c \<in> set [0x09, 0x0A, 0x0B, 0x0C, 0x0D, 0x1C, 0x1D, 0x1E, 0x1F, 0x20,
     0x85, 0xA0, 0x1680, 0x2000, 0x2001, 0x2002, 0x2003, 0x2004, 0x2005, 0x2006, 0x2007,
     0x2008, 0x2009, 0x200A, 0x2028, 0x2029, 0x202F, 0x205F, 0x3000])"

definition py_strip :: "pystr \<Rightarrow> pystr" where
  "py_strip s = rev (dropWhile isspace (rev (dropWhile isspace s)))"

text \<open>\<open>s.split(c)\<close> for a separator of one code point: never the empty list.\<close>

fun py_split :: "nat \<Rightarrow> pystr \<Rightarrow> pystr list" where
  "py_split c [] = [[]]"
| "py_split c (x # xs) =
     (if x = c then [] # py_split c xs
      else (case py_split c xs of [] \<Rightarrow> [[x]] | l # ls \<Rightarrow> (x # l) # ls))"

fun py_join :: "pystr \<Rightarrow> pystr list \<Rightarrow> pystr" where
  "py_join sep [] = []"
| "py_join sep [x] = x"
| "py_join sep (x # y # ys) = x @ sep @ py_join sep (y # ys)"

text \<open>\<open>s.replace(ch, new)\<close> where \<open>ch\<close> is one code point.\<close>

definition py_replace :: "nat \<Rightarrow> pystr \<Rightarrow> pystr \<Rightarrow> pystr" where
  "py_replace ch new s = concat (map (\<lambda>c. if c = ch then new else [c]) s)"

text \<open>\<open>needle in hay\<close>: \<open>needle\<close> occurs in \<open>hay\<close> as a contiguous run.\<close>

fun starts_with :: "pystr \<Rightarrow> pystr \<Rightarrow> bool" where
  "starts_with [] hay = True"
| "starts_with (n # ns) [] = False"
| "starts_with (n # ns) (h # hs) = (n = h \<and> starts_with ns hs)"

fun py_in :: "pystr \<Rightarrow> pystr \<Rightarrow> bool" where
  "py_in needle [] = (needle = [])"
| "py_in needle (h # hs) = (starts_with needle (h # hs) \<or> py_in needle hs)"

definition nl :: pystr where
  "nl = [0x0A]"

section \<open>The outside world\<close>

text \<open>
  The HTTP transport, the translation backend, the clock and the file system are
  capabilities outside the program. The answers of the transport and of the translation
  backend are given by oracles indexed by the number of calls made so far; every call,
  every \<open>time.sleep\<close> and every file written is appended to a chronological trace.
  A sleep length is a Python number that the program only passes on; it is kept as a
  rational. \<open>EChapter\<close> records the banner that \<open>process_chapters\<close> prints when it starts
  on a chapter; the other prints are not recorded.

  The clock and the file system are taken to do what they are asked: a sleep returns, a
  directory is made and a file is written. What the libraries raise on their own account
  (\<open>time.sleep\<close> on a negative length, \<open>open\<close> on a path the file system refuses, the
  construction of a translator for an unknown language) is outside the model.
\<close>

datatype response = TransportError | Resp int pystr

datatype translation = TranslationError | Translated pystr

type_synonym headers = "(pystr \<times> pystr) list"

type_synonym http_get = "nat \<Rightarrow> pystr \<Rightarrow> headers option \<Rightarrow> int \<Rightarrow> response"

datatype event =
    EGet pystr
  | ESleep rat
  | ETranslate pystr
  | EMakedirs pystr
  | EWrite pystr pystr
  | EChapter int pystr

record world =
  gets :: nat
  translate_calls :: nat
  trace :: "event list"

definition emit :: "event \<Rightarrow> world \<Rightarrow> world" where
  "emit e w = w\<lparr>trace := trace w @ [e]\<rparr>"

definition sleep :: "rat \<Rightarrow> world \<Rightarrow> world" where
  "sleep d w = emit (ESleep d) w"

text \<open>\<open>requests.get(url, headers=headers, timeout=timeout)\<close>: the next answer of the
  transport; \<open>TransportError\<close> stands for a raised \<open>requests.RequestException\<close>.\<close>

definition requests_get ::
  "http_get \<Rightarrow> pystr \<Rightarrow> headers option \<Rightarrow> int \<Rightarrow> world \<Rightarrow> response \<times> world" where
  "requests_get G url hdrs timeout w =
     (G (gets w) url hdrs timeout, emit (EGet url) (w\<lparr>gets := Suc (gets w)\<rparr>))"

section \<open>fetch_url\<close>

text \<open>
  The loop \<open>for attempt in range(1, retries + 1)\<close>, from the iteration \<open>attempt\<close> on.
  When the range is exhausted the function falls off its end and returns \<open>None\<close>.
\<close>

function fetch_attempts ::
  "http_get \<Rightarrow> pystr \<Rightarrow> headers option \<Rightarrow> int \<Rightarrow> int \<Rightarrow> rat \<Rightarrow> int \<Rightarrow> world
     \<Rightarrow> pystr option \<times> world" where
  "fetch_attempts G url hdrs retries timeout delay attempt w =
     (if retries < attempt then (None, w)
      else
        (case requests_get G url hdrs timeout w of
           (Resp status_code body, w1) \<Rightarrow>
             if status_code = 200 then (Some body, w1) else (None, w1)
         | (TransportError, w1) \<Rightarrow>
             if attempt = retries then (None, w1)
             else fetch_attempts G url hdrs retries timeout delay (attempt + 1)
                    (sleep delay w1)))"
  by pat_completeness auto
termination
  by (relation "measure (\<lambda>(G, url, hdrs, retries, timeout, delay, attempt, w).
        nat (retries + 1 - attempt))") auto

declare fetch_attempts.simps [simp del]

definition fetch_url ::
  "http_get \<Rightarrow> pystr \<Rightarrow> headers option \<Rightarrow> int \<Rightarrow> int \<Rightarrow> rat \<Rightarrow> world
     \<Rightarrow> pystr option \<times> world" where
  "fetch_url G url hdrs retries timeout delay w =
     fetch_attempts G url hdrs retries timeout delay 1 w"

section \<open>The parsed document\<close>

text \<open>
  \<open>BeautifulSoup(html, "lxml")\<close> is a capability outside the program: a function \<open>parse\<close>
  from the markup to the tree it builds. A node of the tree is a string or a tag with its
  name, its attributes and its children; the root is a tag too. \<open>Text\<close> nodes are the
  strings that \<open>get_text\<close> collects.
\<close>

datatype node = Text pystr | Tag pystr "(pystr \<times> pystr) list" "node list"

text \<open>\<open>tag.get(key)\<close>: the value of the attribute, or \<open>None\<close>.\<close>

fun tag_get :: "node \<Rightarrow> pystr \<Rightarrow> pystr option" where
  "tag_get (Text s) key = None"
| "tag_get (Tag name attrs children) key = map_of attrs key"

fun tag_name :: "node \<Rightarrow> pystr option" where
  "tag_name (Text s) = None"
| "tag_name (Tag name attrs children) = Some name"

text \<open>The nodes below a node, in document order (the node itself is not one of them).\<close>

fun descendants :: "node \<Rightarrow> node list" where
  "descendants (Text s) = []"
| "descendants (Tag name attrs children) = concat (map (\<lambda>c. c # descendants c) children)"

text \<open>\<open>node.find(...)\<close> is the first descendant that matches, \<open>node.find_all([names])\<close>
  are the descendant tags with one of the names.\<close>

definition soup_find :: "(node \<Rightarrow> bool) \<Rightarrow> node \<Rightarrow> node option" where
  "soup_find matches n = List.find matches (descendants n)"

definition find_all :: "pystr list \<Rightarrow> node \<Rightarrow> node list" where
  "find_all names n =
     filter (\<lambda>d. case tag_name d of None \<Rightarrow> False | Some nm \<Rightarrow> nm \<in> set names)
       (descendants n)"

fun all_strings :: "node \<Rightarrow> pystr list" where
  "all_strings (Text s) = [s]"
| "all_strings (Tag name attrs children) = concat (map all_strings children)"

text \<open>\<open>node.get_text(separator, strip=True)\<close>: every string below the node is stripped,
  the empty ones are left out, and the rest is joined with the separator.\<close>

definition get_text :: "pystr \<Rightarrow> bool \<Rightarrow> node \<Rightarrow> pystr" where
  "get_text separator strip n =
     py_join separator
       (if strip then filter (\<lambda>s. s \<noteq> []) (map py_strip (all_strings n))
        else all_strings n)"

section \<open>get_chapter_links\<close>

datatype error = RuntimeError pystr

text \<open>The dict \<open>{"title": ..., "url": ...}\<close> of one chapter.\<close>

record chapter_ref =
  chap_title :: pystr
  chap_url :: pystr

definition has_id :: "pystr \<Rightarrow> node \<Rightarrow> bool" where
  "has_id i n = (tag_name n \<noteq> None \<and> tag_get n (py ''id'') = Some i)"

text \<open>The loop over \<open>container.find_all("a")\<close>; \<open>urljoin\<close> is the library's.\<close>

fun collect_links ::
  "(pystr \<Rightarrow> pystr \<Rightarrow> pystr) \<Rightarrow> pystr \<Rightarrow> node list \<Rightarrow> chapter_ref list \<Rightarrow> chapter_ref list" where
  "collect_links urljoin index_url [] chapter_links = chapter_links"
| "collect_links urljoin index_url (a # anchors) chapter_links =
     (let href = tag_get a (py ''href'');
          title = get_text [] True a
      in case href of
           None \<Rightarrow> collect_links urljoin index_url anchors chapter_links
         | Some h \<Rightarrow>
             if h = [] \<or> title = [] then collect_links urljoin index_url anchors chapter_links
             else collect_links urljoin index_url anchors
                    (chapter_links @ [\<lparr>chap_title = title, chap_url = urljoin index_url h\<rparr>]))"

definition get_chapter_links ::
  "http_get \<Rightarrow> (pystr \<Rightarrow> node) \<Rightarrow> (pystr \<Rightarrow> pystr \<Rightarrow> pystr) \<Rightarrow> pystr \<Rightarrow> headers option
     \<Rightarrow> int \<Rightarrow> int \<Rightarrow> rat \<Rightarrow> world \<Rightarrow> (error + chapter_ref list) \<times> world" where
  "get_chapter_links G parse urljoin index_url hdrs retries timeout delay w =
     (case fetch_url G index_url hdrs retries timeout delay w of
        (None, w1) \<Rightarrow> (Inl (RuntimeError (py ''Failed to fetch index page'')), w1)
      | (Some html, w1) \<Rightarrow>
          if html = [] then (Inl (RuntimeError (py ''Failed to fetch index page'')), w1)
          else
            (case soup_find (has_id (py ''tbchapterlist'')) (parse html) of
               None \<Rightarrow>
                 (Inl (RuntimeError (py ''Could not find #tbchapterlist '' @ [0x2013]
                    @ py '' check the page structure'')), w1)
             | Some container \<Rightarrow>
                 (Inr (collect_links urljoin index_url (find_all [py ''a''] container) []),
                  w1)))"

section \<open>extract_chapter_text\<close>

text \<open>The predicate on the \<open>style\<close> attribute, and the tags \<open>soup.find("div", style=...)\<close>
  accepts.\<close>

definition style_matches :: "pystr option \<Rightarrow> bool" where
  "style_matches v =
     (case v of
        None \<Rightarrow> False
      | Some s \<Rightarrow> s \<noteq> [] \<and> py_in (py ''font-size: 20px'') s \<and> py_in (py ''line-height: 30px'') s)"

definition is_content_div :: "node \<Rightarrow> bool" where
  "is_content_div n = (tag_name n = Some (py ''div'') \<and> style_matches (tag_get n (py ''style'')))"

text \<open>The site-name reminder that marks a line to drop.\<close>

definition reminder :: pystr where
  "reminder = [0x8ACB, 0x8A18, 0x4F4F, 0x672C, 0x7AD9, 0x57DF, 0x540D]"

text \<open>The loop over \<open>content_div.find_all(["p", "br"])\<close>.\<close>

fun collect_paragraphs :: "node list \<Rightarrow> pystr list \<Rightarrow> pystr list" where
  "collect_paragraphs [] paragraphs = paragraphs"
| "collect_paragraphs (elem # elems) paragraphs =
     (let text = get_text [] True elem
      in if text \<noteq> [] then collect_paragraphs elems (paragraphs @ [text])
         else collect_paragraphs elems paragraphs)"

text \<open>The loop that drops the reminder lines.\<close>

fun drop_reminders :: "pystr list \<Rightarrow> pystr list \<Rightarrow> pystr list" where
  "drop_reminders [] cleaned = cleaned"
| "drop_reminders (line # lines) cleaned =
     (if py_in reminder line then drop_reminders lines cleaned
      else drop_reminders lines (cleaned @ [line]))"

definition fallback_lines :: "node \<Rightarrow> pystr list" where
  "fallback_lines content_div =
     (let raw = get_text nl True content_div
      in filter (\<lambda>line. py_strip line \<noteq> []) (py_split 0x0A raw))"

definition extract_chapter_text :: "(pystr \<Rightarrow> node) \<Rightarrow> pystr \<Rightarrow> error + pystr" where
  "extract_chapter_text parse chapter_html =
     (case soup_find is_content_div (parse chapter_html) of
        None \<Rightarrow>
          Inl (RuntimeError
            (py ''Could not find chapter text container. Structure may have changed.''))
      | Some content_div \<Rightarrow>
          (let paragraphs = collect_paragraphs (find_all [py ''p'', py ''br''] content_div) [];
               paragraphs = (if paragraphs = [] then fallback_lines content_div else paragraphs);
               cleaned = drop_reminders paragraphs []
           in Inr (py_join nl cleaned)))"

section \<open>translate_text\<close>

text \<open>A translator answers its \<open>n\<close>-th call on a line with a text, or raises.\<close>

type_synonym translator = "nat \<Rightarrow> pystr \<Rightarrow> translation"

definition translator_translate ::
  "translator \<Rightarrow> pystr \<Rightarrow> world \<Rightarrow> translation \<times> world" where
  "translator_translate tr line w =
     (tr (translate_calls w) line,
      emit (ETranslate line) (w\<lparr>translate_calls := Suc (translate_calls w)\<rparr>))"

text \<open>The loop over the non-blank lines: a line whose translation raises is kept as it
  is, and every line is followed by a sleep.\<close>

fun translate_lines ::
  "translator \<Rightarrow> rat \<Rightarrow> pystr list \<Rightarrow> pystr list \<Rightarrow> world \<Rightarrow> pystr list \<times> world" where
  "translate_lines tr line_delay [] translated_lines w = (translated_lines, w)"
| "translate_lines tr line_delay (line # lines) translated_lines w =
     (case translator_translate tr line w of
        (r, w1) \<Rightarrow>
          (let en = (case r of Translated t \<Rightarrow> t | TranslationError \<Rightarrow> line)
           in translate_lines tr line_delay lines (translated_lines @ [en])
                (sleep line_delay w1)))"

definition nonblank_lines :: "pystr \<Rightarrow> pystr list" where
  "nonblank_lines text = filter (\<lambda>line. py_strip line \<noteq> []) (py_split 0x0A text)"

definition translate_text ::
  "pystr \<Rightarrow> translator option \<Rightarrow> bool \<Rightarrow> rat \<Rightarrow> world \<Rightarrow> pystr \<times> world" where
  "translate_text text translator enabled line_delay w =
     (case translator of
        None \<Rightarrow> (text, w)
      | Some tr \<Rightarrow>
          if \<not> enabled then (text, w)
          else
            (case translate_lines tr line_delay (nonblank_lines text) [] w of
               (translated_lines, w1) \<Rightarrow> (py_join nl translated_lines, w1)))"

section \<open>sanitize_filename\<close>

text \<open>The raw literal \<open>r'\\/:*?"<>|'\<close>: ten code points, the backslash twice.\<close>

definition invalid :: pystr where
  "invalid = [0x5C, 0x5C, 0x2F, 0x3A, 0x2A, 0x3F, 0x22, 0x3C, 0x3E, 0x7C]"

definition sanitize_filename :: "pystr \<Rightarrow> pystr" where
  "sanitize_filename name =
     (let name = fold (\<lambda>ch name. py_replace ch (py ''_'') name) invalid name
      in if py_strip name = [] then py ''chapter'' else py_strip name)"

section \<open>process_chapters\<close>

text \<open>\<open>f"{n:04d}"\<close>: decimal digits, padded with zeros to four places, the sign first.\<close>

function decimal :: "nat \<Rightarrow> pystr" where
  "decimal n = (if n < 10 then [0x30 + n] else decimal (n div 10) @ [0x30 + n mod 10])"
  by pat_completeness auto
termination
  by (relation "measure id") auto

declare decimal.simps [simp del]

definition zfill :: "nat \<Rightarrow> pystr \<Rightarrow> pystr" where
  "zfill width s = replicate (width - length s) 0x30 @ s"

definition format_04d :: "int \<Rightarrow> pystr" where
  "format_04d n =
     (if n < 0 then 0x2D # zfill 3 (decimal (nat (- n))) else zfill 4 (decimal (nat n)))"

text \<open>\<open>os.path.join(a, b)\<close> of \<open>posixpath\<close>, for two components.\<close>

definition os_path_join :: "pystr \<Rightarrow> pystr \<Rightarrow> pystr" where
  "os_path_join a b =
     (if starts_with [0x2F] b then b
      else if a = [] \<or> last a = 0x2F then a @ b
      else a @ [0x2F] @ b)"

text \<open>\<open>xs[start:]\<close> and \<open>enumerate(xs, start=start)\<close>.\<close>

definition slice_from :: "'a list \<Rightarrow> int \<Rightarrow> 'a list" where
  "slice_from xs start =
     (if start < 0 then drop (nat (int (length xs) + start)) xs else drop (nat start) xs)"

fun enumerate_from :: "int \<Rightarrow> 'a list \<Rightarrow> (int \<times> 'a) list" where
  "enumerate_from start [] = []"
| "enumerate_from start (x # xs) = (start, x) # enumerate_from (start + 1) xs"

text \<open>
  One pass through the body of the loop of \<open>process_chapters\<close>, after the test of
  \<open>max_chapters\<close>: every path of the body goes on to the next chapter.
\<close>

definition process_chapter ::
  "http_get \<Rightarrow> (pystr \<Rightarrow> node) \<Rightarrow> translator option \<Rightarrow> pystr \<Rightarrow> bool \<Rightarrow> rat \<Rightarrow> int \<Rightarrow> int
     \<Rightarrow> headers \<Rightarrow> int \<Rightarrow> chapter_ref \<Rightarrow> world \<Rightarrow> world" where
  "process_chapter G parse translator output_dir translate request_delay retries timeout
       hdrs idx chap w =
     (let title = chap_title chap;
          url = chap_url chap
      in case fetch_url G url (Some hdrs) retries timeout request_delay
                (emit (EChapter idx title) w) of
           (None, w1) \<Rightarrow> w1
         | (Some html, w1) \<Rightarrow>
             if html = [] then w1
             else
               (case extract_chapter_text parse html of
                  Inl e \<Rightarrow> w1
                | Inr zh_text \<Rightarrow>
                    (let base_name = format_04d (idx + 1) @ py ''_'' @ sanitize_filename title
                     in case (if translate
                              then (case translate_text zh_text translator True (1 / 2) w1 of
                                      (en_text, w2) \<Rightarrow>
                                        (en_text,
                                         os_path_join output_dir (base_name @ py ''_en.txt''),
                                         w2))
                              else (zh_text,
                                    os_path_join output_dir (base_name @ py ''.txt''),
                                    w1)) of
                          (en_text, out_path, w2) \<Rightarrow>
                            sleep request_delay (emit (EWrite out_path en_text) w2))))"

text \<open>The loop \<open>for idx, chap in enumerate(chapter_links[start_from:], start=start_from)\<close>
  with its \<open>break\<close>.\<close>

fun process_loop ::
  "http_get \<Rightarrow> (pystr \<Rightarrow> node) \<Rightarrow> translator option \<Rightarrow> pystr \<Rightarrow> int \<Rightarrow> int option \<Rightarrow> bool
     \<Rightarrow> rat \<Rightarrow> int \<Rightarrow> int \<Rightarrow> headers \<Rightarrow> (int \<times> chapter_ref) list \<Rightarrow> world \<Rightarrow> world" where
  "process_loop G parse translator output_dir start_from max_chapters translate
       request_delay retries timeout hdrs [] w = w"
| "process_loop G parse translator output_dir start_from max_chapters translate
       request_delay retries timeout hdrs ((idx, chap) # rest) w =
     (if (case max_chapters of None \<Rightarrow> False | Some m \<Rightarrow> start_from + m \<le> idx) then w
      else process_loop G parse translator output_dir start_from max_chapters translate
             request_delay retries timeout hdrs rest
             (process_chapter G parse translator output_dir translate request_delay retries
                timeout hdrs idx chap w))"

text \<open>
  \<open>T\<close> is the translation backend: \<open>T src_lang dest_lang\<close> is the translator that
  \<open>GoogleTranslator(source=src_lang, target=dest_lang)\<close> builds. The result is \<open>Inl\<close> when
  the run ends with an exception and \<open>Inr ()\<close> when it returns.
\<close>

definition process_chapters ::
  "http_get \<Rightarrow> (pystr \<Rightarrow> node) \<Rightarrow> (pystr \<Rightarrow> pystr \<Rightarrow> pystr) \<Rightarrow> (pystr \<Rightarrow> pystr \<Rightarrow> translator)
     \<Rightarrow> pystr \<Rightarrow> pystr \<Rightarrow> int \<Rightarrow> int option \<Rightarrow> bool \<Rightarrow> pystr \<Rightarrow> pystr \<Rightarrow> rat \<Rightarrow> int \<Rightarrow> int
     \<Rightarrow> pystr \<Rightarrow> world \<Rightarrow> (error + unit) \<times> world" where
  "process_chapters G parse urljoin T index_url output_dir start_from max_chapters translate
       src_lang dest_lang request_delay retries timeout user_agent w =
     (let w0 = emit (EMakedirs output_dir) w;
          hdrs = [(py ''User-Agent'', user_agent)];
          translator = (if translate then Some (T src_lang dest_lang) else None)
      in case get_chapter_links G parse urljoin index_url (Some hdrs) retries timeout
                request_delay w0 of
           (Inl e, w1) \<Rightarrow> (Inl e, w1)
         | (Inr chapter_links, w1) \<Rightarrow>
             (let total = int (length chapter_links)
              in if total \<le> start_from then (Inr (), w1)
                 else
                   (Inr (),
                    process_loop G parse translator output_dir start_from max_chapters
                      translate request_delay retries timeout hdrs
                      (enumerate_from start_from (slice_from chapter_links start_from))
                      w1)))"

text \<open>The files written so far, in order, and the chapters started so far.\<close>

fun artifacts :: "event list \<Rightarrow> (pystr \<times> pystr) list" where
  "artifacts [] = []"
| "artifacts (EWrite path content # es) = (path, content) # artifacts es"
| "artifacts (e # es) = artifacts es"

fun chapters_started :: "event list \<Rightarrow> (int \<times> pystr) list" where
  "chapters_started [] = []"
| "chapters_started (EChapter idx title # es) = (idx, title) # chapters_started es"
| "chapters_started (e # es) = chapters_started es"

section \<open>Worlds and transports used in examples\<close>

definition fresh :: world where
  "fresh = \<lparr>gets = 0, translate_calls = 0, trace = []\<rparr>"

definition flaky_get :: "nat \<Rightarrow> response \<Rightarrow> http_get" where
  "flaky_get k r = (\<lambda>n url hdrs timeout. if n < k then TransportError else r)"

text \<open>A title with every code point of \<open>invalid\<close> replaced by an underscore.\<close>

definition underscored :: "pystr \<Rightarrow> pystr" where
  "underscored name = map (\<lambda>c. if c \<in> set invalid then 0x5F else c) name"

section \<open>The lines of a chapter, as the specification describes them\<close>

text \<open>
  The primary lines of a content container are the non-empty stripped texts of its
  paragraph and line-break tags, in document order. The lines kept are the primary lines,
  or the fallback lines when there is no primary line, without those that contain the
  reminder.
\<close>

definition primary_lines :: "node \<Rightarrow> pystr list" where
  "primary_lines content_div =
     filter (\<lambda>t. t \<noteq> []) (map (get_text [] True) (find_all [py ''p'', py ''br''] content_div))"

definition kept_lines :: "node \<Rightarrow> pystr list" where
  "kept_lines content_div =
     filter (\<lambda>line. \<not> py_in reminder line)
       (if primary_lines content_div = [] then fallback_lines content_div
        else primary_lines content_div)"

text \<open>Two pages: a content container with nothing in it, and one whose text is cut by
  a line break only.\<close>

definition content_style :: pystr where
  "content_style = py ''font-size: 20px; line-height: 30px;''"

definition page_of :: "node list \<Rightarrow> node" where
  "page_of children =
     Tag (py ''[document]'') []
       [Tag (py ''html'') []
          [Tag (py ''body'') []
             [Tag (py ''div'') [(py ''style'', content_style)] children]]]"

definition empty_page :: node where
  "empty_page = page_of []"

definition two_line_page :: node where
  "two_line_page = page_of [Text (py ''hello''), Tag (py ''br'') [] [], Text (py ''world'')]"

section \<open>The outcome of translating lines, as the specification describes it\<close>

text \<open>
  The outcome of a line is its translation, or the line itself when the translator
  raises; the lines are submitted one after the other, the first as call \<open>n\<close>.
\<close>

definition line_outcome :: "translator \<Rightarrow> nat \<Rightarrow> pystr \<Rightarrow> pystr" where
  "line_outcome tr n line = (case tr n line of Translated t \<Rightarrow> t | TranslationError \<Rightarrow> line)"

fun outcomes :: "translator \<Rightarrow> nat \<Rightarrow> pystr list \<Rightarrow> pystr list" where
  "outcomes tr n [] = []"
| "outcomes tr n (line # lines) = line_outcome tr n line # outcomes tr (Suc n) lines"

text \<open>A translator that answers its first call and raises on every later one.\<close>

definition first_only :: translator where
  "first_only = (\<lambda>n line. if n = 0 then Translated (py ''hi'') else TranslationError)"

section \<open>The links of an index page, as the specification describes them\<close>

text \<open>
  An anchor is well formed when it has a non-empty \<open>href\<close> and a non-empty visible text;
  its link has that text as title and the \<open>href\<close>, resolved against the URL of the index,
  as URL.
\<close>

definition well_formed_anchor :: "node \<Rightarrow> bool" where
  "well_formed_anchor a =
     (case tag_get a (py ''href'') of
        None \<Rightarrow> False
      | Some h \<Rightarrow> h \<noteq> [] \<and> get_text [] True a \<noteq> [])"

definition link_of :: "(pystr \<Rightarrow> pystr \<Rightarrow> pystr) \<Rightarrow> pystr \<Rightarrow> node \<Rightarrow> chapter_ref" where
  "link_of urljoin index_url a =
     \<lparr>chap_title = get_text [] True a,
      chap_url = urljoin index_url (case tag_get a (py ''href'') of None \<Rightarrow> [] | Some h \<Rightarrow> h)\<rparr>"

text \<open>An index page with four anchors, of which the second has no \<open>href\<close> and the third
  no visible text, and a stand-in for \<open>urljoin\<close> on relative references.\<close>

definition index_anchors :: "node list" where
  "index_anchors =
     [Tag (py ''a'') [(py ''href'', py ''1.html'')] [Text (py '' One '')],
      Tag (py ''a'') [] [Text (py ''Two'')],
      Tag (py ''a'') [(py ''href'', py ''3.html'')] [Text (py '' '')],
      Tag (py ''a'') [(py ''href'', py ''4.html'')] [Tag (py ''b'') [] [Text (py ''Four'')]]]"

definition index_container :: node where
  "index_container =
     Tag (py ''div'') [(py ''id'', py ''tbchapterlist'')]
       [Tag (py ''ul'') [] (map (\<lambda>a. Tag (py ''li'') [] [a]) index_anchors)]"

definition index_page :: node where
  "index_page =
     Tag (py ''[document]'') [] [Tag (py ''html'') [] [Tag (py ''body'') [] [index_container]]]"

definition join_relative :: "pystr \<Rightarrow> pystr \<Rightarrow> pystr" where
  "join_relative base ref = base @ ref"

section \<open>The window of chapters, as the specification describes it\<close>

text \<open>
  The positions \<open>[start_from, start_from + max_chapters)\<close> clipped to the \<open>n\<close> chapters of
  the list (all the positions from \<open>start_from\<close> on when \<open>max_chapters\<close> is absent), and the
  body of the loop run on the chapters at given positions, one after the other.
\<close>

definition window :: "nat \<Rightarrow> int \<Rightarrow> int option \<Rightarrow> nat list" where
  "window n start_from max_chapters =
     [nat start_from ..<
        (case max_chapters of None \<Rightarrow> n | Some m \<Rightarrow> min n (nat (start_from + m)))]"

definition process_window ::
  "http_get \<Rightarrow> (pystr \<Rightarrow> node) \<Rightarrow> translator option \<Rightarrow> pystr \<Rightarrow> bool \<Rightarrow> rat \<Rightarrow> int \<Rightarrow> int
     \<Rightarrow> headers \<Rightarrow> chapter_ref list \<Rightarrow> nat list \<Rightarrow> world \<Rightarrow> world" where
  "process_window G parse translator output_dir translate request_delay retries timeout
       hdrs links positions w =
     foldl (\<lambda>w i. process_chapter G parse translator output_dir translate request_delay
                     retries timeout hdrs (int i) (links ! i) w)
       w positions"

text \<open>
  A site with the index page above, on which the first chapter link leads to a page
  without content container and the other one to a page with two lines.
\<close>

definition site_get :: http_get where
  "site_get = (\<lambda>n url hdrs timeout.
     if url = py ''http://x/'' then Resp 200 (py ''index'')
     else if url = py ''http://x/4.html'' then Resp 200 (py ''chapter'')
     else Resp 200 (py ''other''))"

definition site_parse :: "pystr \<Rightarrow> node" where
  "site_parse html =
     (if html = py ''index'' then index_page
      else if html = py ''chapter'' then two_line_page
      else Tag (py ''[document]'') [] [])"

definition no_translator :: "pystr \<Rightarrow> pystr \<Rightarrow> translator" where
  "no_translator src_lang dest_lang = (\<lambda>n line. TranslationError)"

definition site_links :: "chapter_ref list" where
  "site_links =
     [\<lparr>chap_title = py ''One'', chap_url = py ''http://x/1.html''\<rparr>,
      \<lparr>chap_title = py ''Four'', chap_url = py ''http://x/4.html''\<rparr>]"

section \<open>What two runs have in common\<close>

text \<open>
  Two worlds are alike when the transport is at the same point of its answers in both
  and the same files have been written in both; the calls to the translator made so far
  and the rest of the trace may differ.
\<close>

definition alike :: "world \<Rightarrow> world \<Rightarrow> bool" where
  "alike w w' = (gets w = gets w' \<and> artifacts (trace w) = artifacts (trace w'))"

text \<open>A translation backend that returns every line as it is, and a world in which
  translator calls and a sleep have already happened.\<close>

definition echo_translator :: "pystr \<Rightarrow> pystr \<Rightarrow> translator" where
  "echo_translator src_lang dest_lang = (\<lambda>n line. Translated line)"

definition used :: world where
  "used = \<lparr>gets = 0, translate_calls = 7, trace = [ESleep 1]\<rparr>"

section \<open>Properties of fetch_url\<close>

lemma fetch_attempts_errors_then_status:
  assumes "\<forall>i<k. G (gets w + i) url hdrs timeout = TransportError"
      and "G (gets w + k) url hdrs timeout = Resp code body"
      and "attempt + int k \<le> retries"
  shows "fetch_attempts G url hdrs retries timeout delay attempt w =
     ((if code = 200 then Some body else None),
      w\<lparr>gets := gets w + k + 1,
        trace := trace w @ concat (replicate k [EGet url, ESleep delay]) @ [EGet url]\<rparr>)"
  using assms
proof (induction k arbitrary: attempt w)
  case 0
  then show ?case
    by (subst fetch_attempts.simps) (simp add: requests_get_def emit_def)
next
  case (Suc k)
  let ?w1 = "sleep delay (emit (EGet url) (w\<lparr>gets := Suc (gets w)\<rparr>))"
  have g: "gets ?w1 = Suc (gets w)" by (simp add: sleep_def emit_def)
  have t: "trace ?w1 = trace w @ [EGet url, ESleep delay]" by (simp add: sleep_def emit_def)
  have a: "\<forall>i<k. G (gets ?w1 + i) url hdrs timeout = TransportError"
    using Suc.prems(1) g by auto
  have b: "G (gets ?w1 + k) url hdrs timeout = Resp code body"
    using Suc.prems(2) g by simp
  have c: "(attempt + 1) + int k \<le> retries" using Suc.prems(3) by simp
  have first: "G (gets w) url hdrs timeout = TransportError"
    using Suc.prems(1) by (metis add.right_neutral zero_less_Suc)
  have step: "fetch_attempts G url hdrs retries timeout delay attempt w =
      fetch_attempts G url hdrs retries timeout delay (attempt + 1) ?w1"
    using first Suc.prems(3)
    by (subst fetch_attempts.simps) (simp add: requests_get_def)
  show ?case
    unfolding step Suc.IH [OF a b c]
    by (simp add: g t sleep_def emit_def)
qed

text \<open>
  Claim C1. When the transport raises on attempts 1 and 2 and answers 200 on attempt 3,
  with \<open>retries = 3\<close>, \<open>fetch_url\<close> returns the body of that answer, and what it did is
  exactly: GET, sleep \<open>delay\<close>, GET, sleep \<open>delay\<close>, GET. It sleeps twice, between the
  attempts, and not after the last one.
\<close>

theorem fetch_url_retry_twice_then_ok:
  assumes "G (gets w) url hdrs timeout = TransportError"
      and "G (gets w + 1) url hdrs timeout = TransportError"
      and "G (gets w + 2) url hdrs timeout = Resp 200 body"
  shows "fetch_url G url hdrs 3 timeout delay w =
     (Some body,
      w\<lparr>gets := gets w + 3,
        trace := trace w @ [EGet url, ESleep delay, EGet url, ESleep delay, EGet url]\<rparr>)"
proof -
  have a: "\<forall>i<2. G (gets w + i) url hdrs timeout = TransportError"
    using assms(1,2) by (auto simp: less_Suc_eq numeral_2_eq_2)
  have c: "1 + int 2 \<le> 3" by simp
  show ?thesis
    unfolding fetch_url_def
    using fetch_attempts_errors_then_status
      [where k = 2 and G = G and w = w and url = url and hdrs = hdrs and timeout = timeout
         and code = 200 and body = body and attempt = 1 and retries = 3 and delay = delay]
      a assms(3)
    by (simp add: numeral_2_eq_2)
qed

text \<open>
  Claim C2. The first answer whose status is not 200 ends the fetch with \<open>None\<close>: after
  \<open>k\<close> transport errors (each followed by one sleep) and an answer with another status
  on attempt \<open>k + 1 \<le> retries\<close>, the trace ends with the GET of that answer; no attempt
  and no sleep follows it. With \<open>k = 0\<close> the fetch is one GET and no sleep.
\<close>

theorem fetch_url_non200_terminal:
  assumes "\<forall>i<k. G (gets w + i) url hdrs timeout = TransportError"
      and "G (gets w + k) url hdrs timeout = Resp code body"
      and "code \<noteq> 200"
      and "int k < retries"
  shows "fetch_url G url hdrs retries timeout delay w =
     (None,
      w\<lparr>gets := gets w + k + 1,
        trace := trace w @ concat (replicate k [EGet url, ESleep delay]) @ [EGet url]\<rparr>)"
proof -
  have c: "1 + int k \<le> retries" using assms(4) by simp
  show ?thesis
    unfolding fetch_url_def
    using fetch_attempts_errors_then_status
      [where k = k and G = G and w = w and url = url and hdrs = hdrs and timeout = timeout
         and code = code and body = body and attempt = 1 and retries = retries
         and delay = delay]
      assms(1,2,3) c
    by simp
qed

lemma fetch_attempts_gets_bound:
  "gets (snd (fetch_attempts G url hdrs retries timeout delay attempt w))
     \<le> gets w + nat (retries + 1 - attempt)"
proof (induction G url hdrs retries timeout delay attempt w rule: fetch_attempts.induct)
  case (1 G url hdrs retries timeout delay attempt w)
  show ?case
  proof (cases "retries < attempt")
    case True
    then show ?thesis by (subst fetch_attempts.simps) simp
  next
    case False
    show ?thesis
    proof (cases "G (gets w) url hdrs timeout")
      case TransportError
      show ?thesis
      proof (cases "attempt = retries")
        case True
        then show ?thesis using TransportError
          by (subst fetch_attempts.simps) (simp add: requests_get_def emit_def)
      next
        case ne: False
        have rq: "requests_get G url hdrs timeout w =
          (TransportError, emit (EGet url) (w\<lparr>gets := Suc (gets w)\<rparr>))"
          using TransportError by (simp add: requests_get_def)
        from "1.IH" [OF False rq [symmetric] refl ne]
        have "gets (snd (fetch_attempts G url hdrs retries timeout delay (attempt + 1)
                 (sleep delay (emit (EGet url) (w\<lparr>gets := Suc (gets w)\<rparr>)))))
              \<le> Suc (gets w) + nat (retries + 1 - (attempt + 1))"
          by (simp add: sleep_def emit_def)
        then show ?thesis using False ne rq
          by (subst fetch_attempts.simps) (simp add: nat_diff_distrib' )
      qed
    next
      case (Resp code body)
      then show ?thesis using False
        by (subst fetch_attempts.simps) (simp add: requests_get_def emit_def)
    qed
  qed
qed

text \<open>
  Claim C10. With \<open>retries \<le> 0\<close> the range of attempts is empty: \<open>fetch_url\<close> returns
  \<open>None\<close> and leaves the world as it was, so it makes no GET. In general it makes at most
  \<open>max(retries, 0)\<close> GETs.
\<close>

theorem fetch_url_attempt_bound:
  "(retries \<le> 0 \<longrightarrow> fetch_url G url hdrs retries timeout delay w = (None, w)) \<and>
   gets (snd (fetch_url G url hdrs retries timeout delay w)) \<le> gets w + nat (max retries 0)"
proof -
  have "fetch_url G url hdrs retries timeout delay w = (None, w)" if "retries \<le> 0"
    unfolding fetch_url_def using that by (subst fetch_attempts.simps) simp
  moreover have "gets (snd (fetch_url G url hdrs retries timeout delay w))
      \<le> gets w + nat (max retries 0)"
    unfolding fetch_url_def
    using fetch_attempts_gets_bound [of G url hdrs retries timeout delay 1 w]
    by simp
  ultimately show ?thesis by simp
qed

theorem fetch_url_retry_twice_then_ok_witness:
  "flaky_get 2 (Resp 200 (py ''ok'')) (gets fresh) (py ''http://x/'') None 15 = TransportError \<and>
   flaky_get 2 (Resp 200 (py ''ok'')) (gets fresh + 1) (py ''http://x/'') None 15 = TransportError \<and>
   flaky_get 2 (Resp 200 (py ''ok'')) (gets fresh + 2) (py ''http://x/'') None 15
     = Resp 200 (py ''ok'') \<and>
   fetch_url (flaky_get 2 (Resp 200 (py ''ok''))) (py ''http://x/'') None 3 15 3 fresh =
     (Some (py ''ok''),
      \<lparr>gets = 3, translate_calls = 0,
       trace = [EGet (py ''http://x/''), ESleep 3, EGet (py ''http://x/''), ESleep 3,
                EGet (py ''http://x/'')]\<rparr>)"
  using fetch_url_retry_twice_then_ok
    [of "flaky_get 2 (Resp 200 (py ''ok''))" fresh "py ''http://x/''" None 15 "py ''ok''" 3]
  by (simp add: flaky_get_def fresh_def)

theorem fetch_url_non200_terminal_witness:
  "flaky_get 1 (Resp 503 []) (gets fresh + 0) (py ''http://x/'') None 15 = TransportError \<and>
   flaky_get 1 (Resp 503 []) (gets fresh + 1) (py ''http://x/'') None 15 = Resp 503 [] \<and>
   (503::int) \<noteq> 200 \<and> int 1 < 3 \<and>
   fetch_url (flaky_get 1 (Resp 503 [])) (py ''http://x/'') None 3 15 3 fresh =
     (None,
      \<lparr>gets = 2, translate_calls = 0,
       trace = [EGet (py ''http://x/''), ESleep 3, EGet (py ''http://x/'')]\<rparr>)"
  using fetch_url_non200_terminal
    [of 1 "flaky_get 1 (Resp 503 [])" fresh "py ''http://x/''" None 15 503 "[]" 3 3]
  by (simp add: flaky_get_def fresh_def)

theorem fetch_url_attempt_bound_witness:
  "(0::int) \<le> 0 \<and>
   fetch_url (flaky_get 0 (Resp 200 (py ''ok''))) (py ''http://x/'') None 0 15 3 fresh = (None, fresh) \<and>
   gets (snd (fetch_url (flaky_get 0 (Resp 200 (py ''ok''))) (py ''http://x/'') None 0 15 3 fresh))
     \<le> gets fresh + nat (max 0 0)"
  using fetch_url_attempt_bound
    [of 0 "flaky_get 0 (Resp 200 (py ''ok''))" "py ''http://x/''" None 15 3 fresh]
  by simp

section \<open>Properties of sanitize_filename\<close>

lemma py_replace_single:
  "py_replace ch [u] s = map (\<lambda>c. if c = ch then u else c) s"
  by (induction s) (auto simp: py_replace_def)

lemma fold_replace_invalid:
  "fold (\<lambda>ch name. py_replace ch (py ''_'') name) invalid name = underscored name"
  by (simp add: invalid_def py_def py_replace_single underscored_def)

lemma py_strip_blank:
  assumes "list_all isspace s"
  shows "py_strip s = []"
proof -
  have d: "dropWhile isspace s = []"
    using assms by (simp add: list_all_iff)
  show ?thesis unfolding py_strip_def d by simp
qed

lemma py_strip_underscores:
  "py_strip (replicate n 0x5F) = replicate n 0x5F"
proof -
  have ns: "\<not> isspace 0x5F" by (simp add: isspace_def)
  show ?thesis by (simp add: py_strip_def ns)
qed

lemma underscored_all_invalid:
  "list_all (\<lambda>c. c \<in> set invalid) name \<Longrightarrow> underscored name = replicate (length name) 0x5F"
  by (induction name) (simp_all add: underscored_def)

lemma underscored_blank:
  "list_all isspace name \<Longrightarrow> underscored name = name"
  by (induction name) (auto simp add: underscored_def isspace_def invalid_def)

text \<open>
  Claim C7, as amended. \<open>sanitize_filename\<close> replaces every backslash, slash, colon, star,
  question mark, double quote, angle bracket and bar by an underscore and strips the
  white space around the result, so \<open>"A/B:C"\<close> becomes \<open>"A_B_C"\<close>. A non-empty title made
  only of those characters becomes as many underscores, not the fallback; the fallback
  \<open>"chapter"\<close> is the result for a title that is empty or white space only.
\<close>

theorem sanitize_filename_spec:
  "sanitize_filename name =
     (if py_strip (underscored name) = [] then py ''chapter'' else py_strip (underscored name))
   \<and> sanitize_filename (py ''A/B:C'') = py ''A_B_C''
   \<and> (list_all (\<lambda>c. c \<in> set invalid) name \<and> name \<noteq> [] \<longrightarrow>
        sanitize_filename name = replicate (length name) 0x5F)
   \<and> (list_all isspace name \<longrightarrow> sanitize_filename name = py ''chapter'')"
proof -
  have gen: "sanitize_filename name =
     (if py_strip (underscored name) = [] then py ''chapter'' else py_strip (underscored name))"
    by (simp add: sanitize_filename_def fold_replace_invalid Let_def)
  have ex: "sanitize_filename (py ''A/B:C'') = py ''A_B_C''"
    by (simp add: sanitize_filename_def py_def invalid_def py_replace_def py_strip_def
        isspace_def)
  have inv: "sanitize_filename name = replicate (length name) 0x5F"
    if "list_all (\<lambda>c. c \<in> set invalid) name" "name \<noteq> []"
    using that by (simp add: gen underscored_all_invalid py_strip_underscores)
  have blank: "sanitize_filename name = py ''chapter''" if "list_all isspace name"
    using that by (simp add: gen underscored_blank py_strip_blank)
  show ?thesis using gen ex inv blank by blast
qed

theorem sanitize_filename_spec_witness:
  "list_all (\<lambda>c. c \<in> set invalid) (py ''/:'') \<and> py ''/:'' \<noteq> [] \<and>
   sanitize_filename (py ''/:'') = replicate (length (py ''/:'')) 0x5F \<and>
   list_all isspace (py '' '') \<and> sanitize_filename (py '' '') = py ''chapter''"
proof -
  have a: "list_all (\<lambda>c. c \<in> set invalid) (py ''/:'')" "py ''/:'' \<noteq> []"
    by (simp_all add: py_def invalid_def)
  have b: "list_all isspace (py '' '')"
    by (simp add: py_def isspace_def)
  show ?thesis
    using a b sanitize_filename_spec [of "py ''/:''"] sanitize_filename_spec [of "py '' ''"]
    by blast
qed

text \<open>The claim as stated fails: three question marks are sanitized to three
  underscores, and the fallback is not used.\<close>

theorem sanitize_filename_all_invalid_counterexample:
  "list_all (\<lambda>c. c \<in> set invalid) (py ''???'') \<and>
   sanitize_filename (py ''???'') = py ''___'' \<and>
   sanitize_filename (py ''???'') \<noteq> py ''chapter''"
  by (simp add: sanitize_filename_def py_def invalid_def py_replace_def py_strip_def
      isspace_def)

section \<open>Properties of extract_chapter_text\<close>

lemma collect_paragraphs_filter:
  "collect_paragraphs elems acc =
     acc @ filter (\<lambda>t. t \<noteq> []) (map (get_text [] True) elems)"
  by (induction elems arbitrary: acc) (simp_all add: Let_def)

lemma drop_reminders_filter:
  "drop_reminders lines acc = acc @ filter (\<lambda>line. \<not> py_in reminder line) lines"
  by (induction lines arbitrary: acc) simp_all

lemma py_strip_Nil: "py_strip [] = []"
  by (simp add: py_strip_def)

lemma py_join_eq_Nil:
  "list_all (\<lambda>x. x \<noteq> []) xs \<Longrightarrow> (py_join sep xs = []) = (xs = [])"
  by (induction sep xs rule: py_join.induct) simp_all

lemma fallback_lines_nonempty: "list_all (\<lambda>x. x \<noteq> []) (fallback_lines d)"
  by (auto simp: fallback_lines_def list_all_iff py_strip_Nil)

lemma primary_lines_nonempty: "list_all (\<lambda>x. x \<noteq> []) (primary_lines d)"
  by (simp add: primary_lines_def list_all_iff)

lemma kept_lines_nonempty: "list_all (\<lambda>x. x \<noteq> []) (kept_lines d)"
  using fallback_lines_nonempty [of d] primary_lines_nonempty [of d]
  by (simp add: kept_lines_def list_all_iff)

text \<open>
  Claim C4, as amended. When the content container is found, \<open>extract_chapter_text\<close>
  succeeds, and its text is the lines kept, joined by newlines: the primary lines, or,
  when there is no primary line, the non-blank lines of the container's raw text split at
  newlines, in both cases without the lines that contain the reminder. Every line kept is
  non-empty, so the text is empty exactly when no line is kept.
\<close>

theorem extract_chapter_text_lines:
  assumes "soup_find is_content_div (parse chapter_html) = Some content_div"
  shows "extract_chapter_text parse chapter_html = Inr (py_join nl (kept_lines content_div))
     \<and> ((py_join nl (kept_lines content_div) = []) = (kept_lines content_div = []))"
proof -
  have "extract_chapter_text parse chapter_html = Inr (py_join nl (kept_lines content_div))"
    using assms
    by (simp add: extract_chapter_text_def Let_def collect_paragraphs_filter
        drop_reminders_filter kept_lines_def primary_lines_def)
  moreover have "(py_join nl (kept_lines content_div) = []) = (kept_lines content_div = [])"
    by (rule py_join_eq_Nil [OF kept_lines_nonempty])
  ultimately show ?thesis by simp
qed

lemma find_empty_page:
  "soup_find is_content_div empty_page = Some (Tag (py ''div'') [(py ''style'', content_style)] [])"
  by (simp add: soup_find_def empty_page_def page_of_def is_content_div_def style_matches_def
      content_style_def py_def)

lemma find_two_line_page:
  "soup_find is_content_div two_line_page =
     Some (Tag (py ''div'') [(py ''style'', content_style)]
            [Text (py ''hello''), Tag (py ''br'') [] [], Text (py ''world'')])"
  by (simp add: soup_find_def two_line_page_def page_of_def is_content_div_def style_matches_def
      content_style_def py_def)

theorem extract_chapter_text_lines_witness:
  "soup_find is_content_div ((\<lambda>html. two_line_page) (py ''x'')) =
     Some (Tag (py ''div'') [(py ''style'', content_style)]
            [Text (py ''hello''), Tag (py ''br'') [] [], Text (py ''world'')]) \<and>
   extract_chapter_text (\<lambda>html. two_line_page) (py ''x'') = Inr (py ''hello'' @ nl @ py ''world'')"
proof -
  let ?d = "Tag (py ''div'') [(py ''style'', content_style)]
            [Text (py ''hello''), Tag (py ''br'') [] [], Text (py ''world'')]"
  have k: "kept_lines ?d = [py ''hello'', py ''world'']"
    by (simp add: kept_lines_def primary_lines_def fallback_lines_def find_all_def get_text_def
        py_strip_def isspace_def nl_def reminder_def py_def)
  have h: "soup_find is_content_div ((\<lambda>html. two_line_page) (py ''x'')) = Some ?d"
    by (simp add: find_two_line_page)
  show ?thesis
    using extract_chapter_text_lines [of "\<lambda>html. two_line_page" "py ''x''" ?d, OF h] h
    by (simp add: k)
qed

text \<open>
  The claim as stated fails: on a page whose content container holds no text the
  extraction succeeds, the fallback finds no line either, and the text returned is empty.
\<close>

theorem extract_chapter_text_empty_counterexample:
  "soup_find is_content_div ((\<lambda>html. empty_page) (py ''page'')) \<noteq> None \<and>
   extract_chapter_text (\<lambda>html. empty_page) (py ''page'') = Inr []"
  by (simp add: extract_chapter_text_def find_empty_page fallback_lines_def find_all_def
      get_text_def py_strip_def nl_def)

section \<open>Properties of translate_text\<close>

lemma translate_lines_outcomes:
  "translate_lines tr line_delay lines acc w =
     (acc @ outcomes tr (translate_calls w) lines,
      w\<lparr>translate_calls := translate_calls w + length lines,
        trace := trace w @ concat (map (\<lambda>line. [ETranslate line, ESleep line_delay]) lines)\<rparr>)"
proof (induction lines arbitrary: acc w)
  case Nil
  show ?case by simp
next
  case (Cons line lines)
  show ?case
    by (simp add: Cons.IH translator_translate_def sleep_def emit_def line_outcome_def Let_def)
qed

lemma length_outcomes: "length (outcomes tr n lines) = length lines"
  by (induction lines arbitrary: n) simp_all

lemma nth_outcomes:
  "k < length lines \<Longrightarrow> outcomes tr n lines ! k = line_outcome tr (n + k) (lines ! k)"
proof (induction lines arbitrary: n k)
  case Nil
  then show ?case by simp
next
  case (Cons line lines)
  then show ?case by (cases k) simp_all
qed

text \<open>
  Claim C5. With a translator and translation enabled, \<open>translate_text\<close> returns, for
  every text and every translator (also one that raises on some or on all lines), the
  newline-join of a list that has the length and the order of the non-blank lines of the
  text; its \<open>k\<close>-th element is the translation of the \<open>k\<close>-th non-blank line, or that line
  itself when the translator raises on it. It makes one call and one sleep for each
  non-blank line, and it always returns.
\<close>

theorem translate_text_outcomes:
  "translate_text text (Some tr) True line_delay w =
     (py_join nl (outcomes tr (translate_calls w) (nonblank_lines text)),
      w\<lparr>translate_calls := translate_calls w + length (nonblank_lines text),
        trace := trace w @
          concat (map (\<lambda>line. [ETranslate line, ESleep line_delay]) (nonblank_lines text))\<rparr>)
   \<and> length (outcomes tr (translate_calls w) (nonblank_lines text))
       = length (nonblank_lines text)
   \<and> (\<forall>k < length (nonblank_lines text).
         outcomes tr (translate_calls w) (nonblank_lines text) ! k =
           (case tr (translate_calls w + k) (nonblank_lines text ! k) of
              Translated t \<Rightarrow> t
            | TranslationError \<Rightarrow> nonblank_lines text ! k))"
proof -
  have "translate_text text (Some tr) True line_delay w =
     (py_join nl (outcomes tr (translate_calls w) (nonblank_lines text)),
      w\<lparr>translate_calls := translate_calls w + length (nonblank_lines text),
        trace := trace w @
          concat (map (\<lambda>line. [ETranslate line, ESleep line_delay]) (nonblank_lines text))\<rparr>)"
    by (simp add: translate_text_def translate_lines_outcomes)
  moreover have "\<forall>k < length (nonblank_lines text).
         outcomes tr (translate_calls w) (nonblank_lines text) ! k =
           (case tr (translate_calls w + k) (nonblank_lines text ! k) of
              Translated t \<Rightarrow> t
            | TranslationError \<Rightarrow> nonblank_lines text ! k)"
    using nth_outcomes [of _ "nonblank_lines text" tr "translate_calls w"]
    by (simp add: line_outcome_def)
  ultimately show ?thesis by (simp add: length_outcomes)
qed

lemma nonblank_example:
  "nonblank_lines (py ''a'' @ nl @ py '' '' @ nl @ py ''b'') = [py ''a'', py ''b'']"
  by (simp add: nonblank_lines_def py_def nl_def py_strip_def isspace_def)

theorem translate_text_outcomes_witness:
  "(1::nat) < length (nonblank_lines (py ''a'' @ nl @ py '' '' @ nl @ py ''b'')) \<and>
   translate_text (py ''a'' @ nl @ py '' '' @ nl @ py ''b'') (Some first_only) True (1 / 2) fresh =
     (py ''hi'' @ nl @ py ''b'',
      \<lparr>gets = 0, translate_calls = 2,
       trace = [ETranslate (py ''a''), ESleep (1 / 2), ETranslate (py ''b''), ESleep (1 / 2)]\<rparr>) \<and>
   outcomes first_only (translate_calls fresh)
       (nonblank_lines (py ''a'' @ nl @ py '' '' @ nl @ py ''b'')) ! 1 = py ''b''"
  using translate_text_outcomes
    [of "py ''a'' @ nl @ py '' '' @ nl @ py ''b''" first_only "1 / 2" fresh]
  by (simp add: nonblank_example first_only_def fresh_def line_outcome_def)

section \<open>Properties of get_chapter_links\<close>

lemma collect_links_filter:
  "collect_links urljoin index_url anchors acc =
     acc @ map (link_of urljoin index_url) (filter well_formed_anchor anchors)"
proof (induction anchors arbitrary: acc)
  case Nil
  show ?case by simp
next
  case (Cons a anchors)
  show ?case
    by (cases "tag_get a (py ''href'')")
       (simp_all add: Cons.IH Let_def well_formed_anchor_def link_of_def)
qed

text \<open>
  Claim C3. When the index page is fetched and its body holds a tag with the id
  \<open>tbchapterlist\<close>, \<open>get_chapter_links\<close> returns the links of the well-formed anchors of
  that container, in document order, each URL being \<open>urljoin\<close> of the index URL and the
  \<open>href\<close>: as many entries as there are well-formed anchors. An anchor without \<open>href\<close> or
  without visible text gives no entry and no error; when every anchor is well formed
  there is one entry for each anchor.
\<close>

theorem get_chapter_links_well_formed:
  assumes "fetch_url G index_url hdrs retries timeout delay w = (Some html, w1)"
      and "html \<noteq> []"
      and "soup_find (has_id (py ''tbchapterlist'')) (parse html) = Some container"
  shows "get_chapter_links G parse urljoin index_url hdrs retries timeout delay w =
           (Inr (map (link_of urljoin index_url)
                   (filter well_formed_anchor (find_all [py ''a''] container))), w1)
     \<and> (case fst (get_chapter_links G parse urljoin index_url hdrs retries timeout delay w) of
           Inl e \<Rightarrow> False
         | Inr links \<Rightarrow>
             length links = length (filter well_formed_anchor (find_all [py ''a''] container)))
     \<and> (list_all well_formed_anchor (find_all [py ''a''] container) \<longrightarrow>
          get_chapter_links G parse urljoin index_url hdrs retries timeout delay w =
            (Inr (map (link_of urljoin index_url) (find_all [py ''a''] container)), w1))"
proof -
  have eq: "get_chapter_links G parse urljoin index_url hdrs retries timeout delay w =
           (Inr (map (link_of urljoin index_url)
                   (filter well_formed_anchor (find_all [py ''a''] container))), w1)"
    using assms by (simp add: get_chapter_links_def collect_links_filter)
  have "filter well_formed_anchor (find_all [py ''a''] container) = find_all [py ''a''] container"
    if "list_all well_formed_anchor (find_all [py ''a''] container)"
    using that by (simp add: list_all_iff)
  with eq show ?thesis by simp
qed


lemma fetch_index_example:
  "fetch_url (flaky_get 0 (Resp 200 (py ''<html>''))) (py ''http://x/'') None 3 15 3 fresh =
     (Some (py ''<html>''),
      \<lparr>gets = 1, translate_calls = 0, trace = [EGet (py ''http://x/'')]\<rparr>)"
  by (simp add: fetch_url_def fetch_attempts.simps requests_get_def flaky_get_def fresh_def
      emit_def)

lemma find_index_container:
  "soup_find (has_id (py ''tbchapterlist'')) index_page = Some index_container"
  by (simp add: soup_find_def index_page_def index_container_def has_id_def py_def)

lemma anchors_of_index_container:
  "find_all [py ''a''] index_container = index_anchors"
  by (simp add: find_all_def index_container_def index_anchors_def py_def)

lemma well_formed_index_anchors:
  "filter well_formed_anchor index_anchors =
     [Tag (py ''a'') [(py ''href'', py ''1.html'')] [Text (py '' One '')],
      Tag (py ''a'') [(py ''href'', py ''4.html'')] [Tag (py ''b'') [] [Text (py ''Four'')]]]"
  by (simp add: index_anchors_def well_formed_anchor_def get_text_def py_strip_def isspace_def
      py_def)

theorem get_chapter_links_well_formed_witness:
  "fetch_url (flaky_get 0 (Resp 200 (py ''<html>''))) (py ''http://x/'') None 3 15 3 fresh =
     (Some (py ''<html>''),
      \<lparr>gets = 1, translate_calls = 0, trace = [EGet (py ''http://x/'')]\<rparr>) \<and>
   py ''<html>'' \<noteq> [] \<and>
   soup_find (has_id (py ''tbchapterlist'')) ((\<lambda>html. index_page) (py ''<html>''))
     = Some index_container \<and>
   get_chapter_links (flaky_get 0 (Resp 200 (py ''<html>''))) (\<lambda>html. index_page) join_relative
       (py ''http://x/'') None 3 15 3 fresh =
     (Inr [\<lparr>chap_title = py ''One'', chap_url = py ''http://x/1.html''\<rparr>,
           \<lparr>chap_title = py ''Four'', chap_url = py ''http://x/4.html''\<rparr>],
      \<lparr>gets = 1, translate_calls = 0, trace = [EGet (py ''http://x/'')]\<rparr>)"
proof -
  have h2: "py ''<html>'' \<noteq> []" by (simp add: py_def)
  have h3: "soup_find (has_id (py ''tbchapterlist'')) ((\<lambda>html. index_page) (py ''<html>''))
     = Some index_container"
    by (simp add: find_index_container)
  have links: "map (link_of join_relative (py ''http://x/''))
       (filter well_formed_anchor (find_all [py ''a''] index_container)) =
     [\<lparr>chap_title = py ''One'', chap_url = py ''http://x/1.html''\<rparr>,
      \<lparr>chap_title = py ''Four'', chap_url = py ''http://x/4.html''\<rparr>]"
    unfolding anchors_of_index_container well_formed_index_anchors
    by (simp add: link_of_def join_relative_def get_text_def py_strip_def isspace_def py_def)
  show ?thesis
    using get_chapter_links_well_formed [OF fetch_index_example h2 h3, of join_relative]
      fetch_index_example h2 h3
    by (simp only: links) simp
qed

section \<open>Properties of process_chapters: the window\<close>

lemma chapters_started_append:
  "chapters_started (xs @ ys) = chapters_started xs @ chapters_started ys"
  by (induction xs rule: chapters_started.induct) simp_all

lemma artifacts_append:
  "artifacts (xs @ ys) = artifacts xs @ artifacts ys"
  by (induction xs rule: artifacts.induct) simp_all

lemma fetch_attempts_silent:
  assumes app: "\<And>xs ys. p (xs @ ys) = p xs @ p ys"
      and get: "\<And>u. p [EGet u] = []"
      and slp: "\<And>d. p [ESleep d] = []"
  shows "p (trace (snd (fetch_attempts G url hdrs retries timeout delay attempt w))) = p (trace w)"
proof (induction G url hdrs retries timeout delay attempt w rule: fetch_attempts.induct)
  case (1 G url hdrs retries timeout delay attempt w)
  let ?w1 = "emit (EGet url) (w\<lparr>gets := Suc (gets w)\<rparr>)"
  have "trace ?w1 = trace w @ [EGet url]" by (simp add: emit_def)
  then have t1: "p (trace ?w1) = p (trace w)" by (simp only: app get append_Nil2)
  show ?case
  proof (cases "retries < attempt")
    case True
    then show ?thesis by (subst fetch_attempts.simps) simp
  next
    case False
    show ?thesis
    proof (cases "G (gets w) url hdrs timeout")
      case (Resp code body)
      then show ?thesis using False t1
        by (subst fetch_attempts.simps) (simp add: requests_get_def)
    next
      case TransportError
      show ?thesis
      proof (cases "attempt = retries")
        case True
        then show ?thesis using TransportError t1
          by (subst fetch_attempts.simps) (simp add: requests_get_def)
      next
        case ne: False
        have rq: "requests_get G url hdrs timeout w = (TransportError, ?w1)"
          using TransportError by (simp add: requests_get_def)
        have "p (trace (snd (fetch_attempts G url hdrs retries timeout delay (attempt + 1)
                 (sleep delay ?w1)))) = p (trace (sleep delay ?w1))"
          by (rule "1.IH" [OF False rq [symmetric] refl ne])
        also have "\<dots> = p (trace ?w1 @ [ESleep delay])"
          by (simp add: sleep_def emit_def)
        also have "\<dots> = p (trace w)"
          unfolding app t1 slp by simp
        finally show ?thesis using False ne rq
          by (subst fetch_attempts.simps) simp
      qed
    qed
  qed
qed

lemma fetch_url_chapters_started:
  "chapters_started (trace (snd (fetch_url G url hdrs retries timeout delay w)))
     = chapters_started (trace w)"
  unfolding fetch_url_def
  by (rule fetch_attempts_silent) (simp_all add: chapters_started_append)

lemma fetch_url_artifacts:
  "artifacts (trace (snd (fetch_url G url hdrs retries timeout delay w))) = artifacts (trace w)"
  unfolding fetch_url_def
  by (rule fetch_attempts_silent) (simp_all add: artifacts_append)


lemma translate_text_chapters_started:
  "chapters_started (trace (snd (translate_text text translator enabled line_delay w)))
     = chapters_started (trace w)"
proof -
  have z: "chapters_started (concat (map (\<lambda>line. [ETranslate line, ESleep line_delay]) ls)) = []"
    for ls
    by (induction ls) simp_all
  show ?thesis
    by (cases translator)
       (simp_all add: translate_text_def translate_lines_outcomes chapters_started_append z)
qed

lemma process_chapter_chapters_started:
  "chapters_started (trace (process_chapter G parse translator output_dir translate
       request_delay retries timeout hdrs idx chap w))
     = chapters_started (trace w) @ [(idx, chap_title chap)]"
proof -
  let ?w0 = "emit (EChapter idx (chap_title chap)) w"
  obtain html w1 where f:
    "fetch_url G (chap_url chap) (Some hdrs) retries timeout request_delay ?w0 = (html, w1)"
    by (cases "fetch_url G (chap_url chap) (Some hdrs) retries timeout request_delay ?w0")
  have c1: "chapters_started (trace w1) = chapters_started (trace w) @ [(idx, chap_title chap)]"
    using fetch_url_chapters_started
      [of G "chap_url chap" "Some hdrs" retries timeout request_delay ?w0] f
    by (simp add: emit_def chapters_started_append)
  show ?thesis
  proof (cases html)
    case None
    then show ?thesis using f c1 by (simp add: process_chapter_def)
  next
    case (Some h)
    show ?thesis
    proof (cases "h = []")
      case True
      then show ?thesis using f c1 Some by (simp add: process_chapter_def)
    next
      case False
      show ?thesis
      proof (cases "extract_chapter_text parse h")
        case (Inl e)
        then show ?thesis using f c1 Some False by (simp add: process_chapter_def)
      next
        case (Inr zh_text)
        obtain en w2 where t: "translate_text zh_text translator True (1 / 2) w1 = (en, w2)"
          by (cases "translate_text zh_text translator True (1 / 2) w1")
        have c2: "chapters_started (trace w2) = chapters_started (trace w1)"
          using translate_text_chapters_started [of zh_text translator True "1 / 2" w1] t
          by simp
        show ?thesis using f c1 c2 t Some False Inr
          by (simp add: process_chapter_def Let_def sleep_def emit_def chapters_started_append)
      qed
    qed
  qed
qed

lemma process_window_chapters_started:
  "chapters_started (trace (process_window G parse translator output_dir translate
       request_delay retries timeout hdrs links positions w))
     = chapters_started (trace w) @ map (\<lambda>i. (int i, chap_title (links ! i))) positions"
  unfolding process_window_def
  by (induction positions arbitrary: w) (simp_all add: process_chapter_chapters_started)

lemma enumerate_from_drop:
  "k < length xs \<Longrightarrow>
     enumerate_from (int k) (drop k xs) = (int k, xs ! k) # enumerate_from (int (Suc k)) (drop (Suc k) xs)"
  by (simp add: Cons_nth_drop_Suc [symmetric] add.commute)

lemma process_loop_window:
  "process_loop G parse translator output_dir start_from max_chapters translate
       request_delay retries timeout hdrs (enumerate_from (int k) (drop k links)) w =
     process_window G parse translator output_dir translate request_delay retries timeout
       hdrs links
       [k ..< (case max_chapters of None \<Rightarrow> length links
               | Some m \<Rightarrow> min (length links) (nat (start_from + m)))] w"
proof (induction "length links - k" arbitrary: k w)
  case 0
  then have a: "drop k links = []" by simp
  have b: "[k ..< (case max_chapters of None \<Rightarrow> length links
               | Some m \<Rightarrow> min (length links) (nat (start_from + m)))] = []"
    using 0 by (auto split: option.split)
  show ?case
    by (simp only: a b process_window_def enumerate_from.simps process_loop.simps foldl_Nil)
next
  case (Suc d)
  then have k: "k < length links" by simp
  let ?hi = "case max_chapters of None \<Rightarrow> length links
               | Some m \<Rightarrow> min (length links) (nat (start_from + m))"
  have d: "d = length links - Suc k" using Suc.hyps(2) by simp
  show ?case
  proof (cases "case max_chapters of None \<Rightarrow> False | Some m \<Rightarrow> start_from + m \<le> int k")
    case True
    then have e: "[k ..< ?hi] = []" by (auto split: option.splits)
    have lhs: "process_loop G parse translator output_dir start_from max_chapters translate
       request_delay retries timeout hdrs (enumerate_from (int k) (drop k links)) w = w"
      using True k by (simp add: enumerate_from_drop)
    show ?thesis unfolding lhs process_window_def e by simp
  next
    case False
    then have "k < ?hi" using k by (auto split: option.splits)
    then have u: "[k ..< ?hi] = k # [Suc k ..< ?hi]" by (simp add: upt_conv_Cons)
    have lhs: "process_loop G parse translator output_dir start_from max_chapters translate
       request_delay retries timeout hdrs (enumerate_from (int k) (drop k links)) w =
       process_loop G parse translator output_dir start_from max_chapters translate
       request_delay retries timeout hdrs (enumerate_from (int (Suc k)) (drop (Suc k) links))
         (process_chapter G parse translator output_dir translate request_delay retries
            timeout hdrs (int k) (links ! k) w)"
      using False k by (simp add: enumerate_from_drop)
    show ?thesis unfolding lhs Suc.hyps(1) [OF d] u process_window_def by simp
  qed
qed

text \<open>
  Claim C6. When the chapter list is discovered and \<open>start_from\<close> is not negative,
  \<open>process_chapters\<close> returns without error, and what it does after the discovery is the
  body of its loop run on the chapters at the positions of the window, in list order, and
  on no other: the banners printed are those of the positions
  \<open>[start_from, start_from + max_chapters)\<close> clipped to the length of the list, or of all
  positions from \<open>start_from\<close> on when \<open>max_chapters\<close> is absent. When \<open>start_from\<close> is at
  or past the length of the list, nothing happens after the discovery.
\<close>

theorem process_chapters_window:
  assumes "get_chapter_links G parse urljoin index_url (Some [(py ''User-Agent'', user_agent)])
             retries timeout request_delay (emit (EMakedirs output_dir) w) = (Inr links, w1)"
      and "0 \<le> start_from"
  shows "process_chapters G parse urljoin T index_url output_dir start_from max_chapters
            translate src_lang dest_lang request_delay retries timeout user_agent w =
          (Inr (),
           process_window G parse (if translate then Some (T src_lang dest_lang) else None)
             output_dir translate request_delay retries timeout
             [(py ''User-Agent'', user_agent)] links
             (window (length links) start_from max_chapters) w1)
     \<and> chapters_started (trace (snd (process_chapters G parse urljoin T index_url output_dir
            start_from max_chapters translate src_lang dest_lang request_delay retries
            timeout user_agent w))) =
          chapters_started (trace w1) @
            map (\<lambda>i. (int i, chap_title (links ! i))) (window (length links) start_from max_chapters)
     \<and> (int (length links) \<le> start_from \<longrightarrow>
          process_chapters G parse urljoin T index_url output_dir start_from max_chapters
            translate src_lang dest_lang request_delay retries timeout user_agent w =
          (Inr (), w1))"
proof -
  let ?tr = "if translate then Some (T src_lang dest_lang) else None"
  let ?h = "[(py ''User-Agent'', user_agent)]"
  have s: "slice_from links start_from = drop (nat start_from) links"
    using assms(2) by (simp add: slice_from_def)
  have i: "int (nat start_from) = start_from" using assms(2) by simp
  have past: "window (length links) start_from max_chapters = []"
    if "int (length links) \<le> start_from"
    using that by (auto simp: window_def split: option.splits)
  have loop: "process_loop G parse ?tr output_dir start_from max_chapters translate
       request_delay retries timeout ?h (enumerate_from start_from (slice_from links start_from)) w1
     = process_window G parse ?tr output_dir translate request_delay retries timeout ?h links
         (window (length links) start_from max_chapters) w1"
    using process_loop_window [of G parse ?tr output_dir start_from max_chapters translate
        request_delay retries timeout ?h "nat start_from" links w1]
    by (simp only: s i window_def)
  have run: "process_chapters G parse urljoin T index_url output_dir start_from max_chapters
            translate src_lang dest_lang request_delay retries timeout user_agent w =
          (Inr (),
           process_window G parse ?tr output_dir translate request_delay retries timeout ?h links
             (window (length links) start_from max_chapters) w1)"
  proof (cases "int (length links) \<le> start_from")
    case True
    then show ?thesis using assms(1) past
      by (simp add: process_chapters_def Let_def process_window_def)
  next
    case False
    then show ?thesis using assms(1) loop
      by (simp add: process_chapters_def Let_def)
  qed
  have started: "chapters_started (trace (snd (process_chapters G parse urljoin T index_url
            output_dir start_from max_chapters translate src_lang dest_lang request_delay
            retries timeout user_agent w))) =
          chapters_started (trace w1) @
            map (\<lambda>i. (int i, chap_title (links ! i))) (window (length links) start_from max_chapters)"
    unfolding run by (simp add: process_window_chapters_started)
  have none: "process_chapters G parse urljoin T index_url output_dir start_from max_chapters
            translate src_lang dest_lang request_delay retries timeout user_agent w =
          (Inr (), w1)" if "int (length links) \<le> start_from"
    unfolding run using past [OF that] by (simp add: process_window_def)
  show ?thesis using run started none by blast
qed


subsection \<open>The example site\<close>

lemma fetch_url_first_ok:
  assumes "G (gets w) url hdrs timeout = Resp 200 body" and "1 \<le> retries"
  shows "fetch_url G url hdrs retries timeout delay w =
           (Some body, emit (EGet url) (w\<lparr>gets := Suc (gets w)\<rparr>))"
  unfolding fetch_url_def using assms
  by (subst fetch_attempts.simps) (simp add: requests_get_def)

lemma site_get_chapter_links:
  "get_chapter_links site_get site_parse join_relative (py ''http://x/'') hdrs 3 15 3 w =
     (Inr site_links, emit (EGet (py ''http://x/'')) (w\<lparr>gets := Suc (gets w)\<rparr>))"
proof -
  have g: "site_get (gets w) (py ''http://x/'') hdrs 15 = Resp 200 (py ''index'')"
    by (simp add: site_get_def)
  have f: "fetch_url site_get (py ''http://x/'') hdrs 3 15 3 w =
      (Some (py ''index''), emit (EGet (py ''http://x/'')) (w\<lparr>gets := Suc (gets w)\<rparr>))"
    using fetch_url_first_ok [where G = site_get and w = w and url = "py ''http://x/''"
        and hdrs = hdrs and timeout = 15 and body = "py ''index''" and retries = 3 and delay = 3] g
    by simp
  have p: "site_parse (py ''index'') = index_page" by (simp add: site_parse_def)
  have n: "py ''index'' \<noteq> []" by (simp add: py_def)
  have l: "map (link_of join_relative (py ''http://x/''))
       (filter well_formed_anchor (find_all [py ''a''] index_container)) = site_links"
    unfolding anchors_of_index_container well_formed_index_anchors
    by (simp add: link_of_def join_relative_def get_text_def py_strip_def isspace_def py_def
        site_links_def)
  show ?thesis
    by (simp add: get_chapter_links_def f n p find_index_container collect_links_filter l)
qed

lemma site_extract_chapter:
  "extract_chapter_text site_parse (py ''chapter'') = Inr (py ''hello'' @ nl @ py ''world'')"
proof -
  have p: "site_parse (py ''chapter'') = two_line_page" by (simp add: site_parse_def py_def)
  show ?thesis
    unfolding extract_chapter_text_def p find_two_line_page
    by (simp add: fallback_lines_def find_all_def get_text_def py_strip_def isspace_def nl_def
        reminder_def py_def)
qed

lemma site_extract_other:
  "extract_chapter_text site_parse (py ''other'') =
     Inl (RuntimeError (py ''Could not find chapter text container. Structure may have changed.''))"
proof -
  have p: "site_parse (py ''other'') = Tag (py ''[document]'') [] []"
    by (simp add: site_parse_def py_def)
  show ?thesis
    unfolding extract_chapter_text_def p by (simp add: soup_find_def)
qed

lemma site_chapter_skipped:
  "process_chapter site_get site_parse translator output_dir translate 3 3 15 hdrs 0
       \<lparr>chap_title = py ''One'', chap_url = py ''http://x/1.html''\<rparr> w =
     w\<lparr>gets := Suc (gets w),
       trace := trace w @ [EChapter 0 (py ''One''), EGet (py ''http://x/1.html'')]\<rparr>"
proof -
  let ?w0 = "emit (EChapter 0 (py ''One'')) w"
  have g: "site_get (gets ?w0) (py ''http://x/1.html'') (Some hdrs) 15 = Resp 200 (py ''other'')"
    by (simp add: site_get_def py_def)
  have f: "fetch_url site_get (py ''http://x/1.html'') (Some hdrs) 3 15 3 ?w0 =
      (Some (py ''other''), emit (EGet (py ''http://x/1.html'')) (?w0\<lparr>gets := Suc (gets ?w0)\<rparr>))"
    using fetch_url_first_ok [where G = site_get and w = ?w0 and url = "py ''http://x/1.html''"
        and hdrs = "Some hdrs" and timeout = 15 and body = "py ''other''" and retries = 3
        and delay = 3] g
    by simp
  have n: "py ''other'' \<noteq> []" by (simp add: py_def)
  have step: "process_chapter site_get site_parse translator output_dir translate 3 3 15 hdrs 0
       \<lparr>chap_title = py ''One'', chap_url = py ''http://x/1.html''\<rparr> w =
     emit (EGet (py ''http://x/1.html'')) (?w0\<lparr>gets := Suc (gets ?w0)\<rparr>)"
    by (simp add: process_chapter_def Let_def f n site_extract_other)
  show ?thesis unfolding step by (simp add: emit_def)
qed

lemma site_chapter_written:
  "process_chapter site_get site_parse translator (py ''out'') False 3 3 15 hdrs 1
       \<lparr>chap_title = py ''Four'', chap_url = py ''http://x/4.html''\<rparr> w =
     w\<lparr>gets := Suc (gets w),
       trace := trace w @
         [EChapter 1 (py ''Four''), EGet (py ''http://x/4.html''),
          EWrite (py ''out/0002_Four.txt'') (py ''hello'' @ nl @ py ''world''), ESleep 3]\<rparr>"
proof -
  let ?w0 = "emit (EChapter 1 (py ''Four'')) w"
  have g: "site_get (gets ?w0) (py ''http://x/4.html'') (Some hdrs) 15 = Resp 200 (py ''chapter'')"
    by (simp add: site_get_def py_def)
  have f: "fetch_url site_get (py ''http://x/4.html'') (Some hdrs) 3 15 3 ?w0 =
      (Some (py ''chapter''), emit (EGet (py ''http://x/4.html'')) (?w0\<lparr>gets := Suc (gets ?w0)\<rparr>))"
    using fetch_url_first_ok [where G = site_get and w = ?w0 and url = "py ''http://x/4.html''"
        and hdrs = "Some hdrs" and timeout = 15 and body = "py ''chapter''" and retries = 3
        and delay = 3] g
    by simp
  have n: "py ''chapter'' \<noteq> []" by (simp add: py_def)
  have d: "decimal 2 = [0x32]" by (subst decimal.simps) simp
  have fmt: "format_04d (1 + 1) = py ''0002''"
    by (simp add: format_04d_def zfill_def d py_def numeral_3_eq_3)
  have san: "sanitize_filename (py ''Four'') = py ''Four''"
    by (simp add: sanitize_filename_def py_def invalid_def py_replace_def py_strip_def
        isspace_def)
  have name: "os_path_join (py ''out'')
      ((format_04d (1 + 1) @ py ''_'' @ sanitize_filename (py ''Four'')) @ py ''.txt'') =
      py ''out/0002_Four.txt''"
    unfolding fmt san by (simp add: os_path_join_def py_def)
  have step: "process_chapter site_get site_parse translator (py ''out'') False 3 3 15 hdrs 1
       \<lparr>chap_title = py ''Four'', chap_url = py ''http://x/4.html''\<rparr> w =
     sleep 3 (emit (EWrite (py ''out/0002_Four.txt'') (py ''hello'' @ nl @ py ''world''))
       (emit (EGet (py ''http://x/4.html'')) (?w0\<lparr>gets := Suc (gets ?w0)\<rparr>)))"
    unfolding process_chapter_def Let_def chapter_ref.simps f
    using n by (simp only: site_extract_chapter name prod.case option.case sum.case if_False)
  show ?thesis unfolding step by (simp add: emit_def sleep_def)
qed

theorem process_chapters_window_witness:
  "get_chapter_links site_get site_parse join_relative (py ''http://x/'')
       (Some [(py ''User-Agent'', py ''ua'')]) 3 15 3 (emit (EMakedirs (py ''out'')) fresh) =
     (Inr site_links,
      \<lparr>gets = 1, translate_calls = 0,
       trace = [EMakedirs (py ''out''), EGet (py ''http://x/'')]\<rparr>) \<and>
   (0::int) \<le> 1 \<and>
   process_chapters site_get site_parse join_relative no_translator (py ''http://x/'')
       (py ''out'') 1 (Some 3) False (py ''zh-TW'') (py ''en'') 3 3 15 (py ''ua'') fresh =
     (Inr (),
      \<lparr>gets = 2, translate_calls = 0,
       trace = [EMakedirs (py ''out''), EGet (py ''http://x/''),
                EChapter 1 (py ''Four''), EGet (py ''http://x/4.html''),
                EWrite (py ''out/0002_Four.txt'') (py ''hello'' @ nl @ py ''world''),
                ESleep 3]\<rparr>) \<and>
   int (length site_links) \<le> 2 \<and>
   process_chapters site_get site_parse join_relative no_translator (py ''http://x/'')
       (py ''out'') 2 (Some 3) False (py ''zh-TW'') (py ''en'') 3 3 15 (py ''ua'') fresh =
     (Inr (),
      \<lparr>gets = 1, translate_calls = 0,
       trace = [EMakedirs (py ''out''), EGet (py ''http://x/'')]\<rparr>)"
proof -
  let ?w1 = "\<lparr>gets = 1, translate_calls = 0,
       trace = [EMakedirs (py ''out''), EGet (py ''http://x/'')]\<rparr>"
  have h: "get_chapter_links site_get site_parse join_relative (py ''http://x/'')
       (Some [(py ''User-Agent'', py ''ua'')]) 3 15 3 (emit (EMakedirs (py ''out'')) fresh) =
     (Inr site_links, ?w1)"
    by (simp add: site_get_chapter_links emit_def fresh_def)
  have len: "length site_links = 2" by (simp add: site_links_def)
  have win: "window 2 1 (Some 3) = [1]"
    by (simp add: window_def upt_rec)
  have one: "process_window site_get site_parse None (py ''out'') False 3 3 15
       [(py ''User-Agent'', py ''ua'')] site_links [1] ?w1 =
     \<lparr>gets = 2, translate_calls = 0,
       trace = [EMakedirs (py ''out''), EGet (py ''http://x/''),
                EChapter 1 (py ''Four''), EGet (py ''http://x/4.html''),
                EWrite (py ''out/0002_Four.txt'') (py ''hello'' @ nl @ py ''world''),
                ESleep 3]\<rparr>"
    by (simp add: process_window_def site_links_def site_chapter_written)
  have a: "(0::int) \<le> 1" and b: "(0::int) \<le> 2" by simp_all
  have c: "int (length site_links) \<le> 2" by (simp add: len)
  have r1: "process_chapters site_get site_parse join_relative no_translator (py ''http://x/'')
       (py ''out'') 1 (Some 3) False (py ''zh-TW'') (py ''en'') 3 3 15 (py ''ua'') fresh =
     (Inr (),
      process_window site_get site_parse (if False then Some (no_translator (py ''zh-TW'') (py ''en'')) else None)
        (py ''out'') False 3 3 15 [(py ''User-Agent'', py ''ua'')] site_links
        (window (length site_links) 1 (Some 3)) ?w1)"
    by (rule conjunct1 [OF process_chapters_window [OF h a]])
  have r1': "process_chapters site_get site_parse join_relative no_translator (py ''http://x/'')
       (py ''out'') 1 (Some 3) False (py ''zh-TW'') (py ''en'') 3 3 15 (py ''ua'') fresh =
     (Inr (),
      \<lparr>gets = 2, translate_calls = 0,
       trace = [EMakedirs (py ''out''), EGet (py ''http://x/''),
                EChapter 1 (py ''Four''), EGet (py ''http://x/4.html''),
                EWrite (py ''out/0002_Four.txt'') (py ''hello'' @ nl @ py ''world''),
                ESleep 3]\<rparr>)"
    unfolding r1 len win if_False one by (rule refl)
  have r2: "process_chapters site_get site_parse join_relative no_translator (py ''http://x/'')
       (py ''out'') 2 (Some 3) False (py ''zh-TW'') (py ''en'') 3 3 15 (py ''ua'') fresh =
     (Inr (), ?w1)"
    by (rule mp [OF conjunct2 [OF conjunct2 [OF process_chapters_window [OF h b]]] c])
  show ?thesis
    by (intro conjI h a c r1' r2)
qed

section \<open>Properties of process_chapters: structure errors\<close>

lemma extract_chapter_text_no_container:
  "soup_find is_content_div (parse html) = None \<Longrightarrow>
     extract_chapter_text parse html =
       Inl (RuntimeError (py ''Could not find chapter text container. Structure may have changed.''))"
  by (simp add: extract_chapter_text_def)

text \<open>
  Claim C8. When the body of the index page has no tag with the id \<open>tbchapterlist\<close>, the
  run ends with the \<open>RuntimeError\<close> of \<open>get_chapter_links\<close>: the world is the one left by
  the fetch of the index page, no chapter is started and no file is written. When the
  body of a chapter page has no content container, the \<open>RuntimeError\<close> of
  \<open>extract_chapter_text\<close> is caught: the loop goes on with the remaining chapters from the
  world left by the fetch of that chapter, in which no file has been written for it.
\<close>

theorem structure_error_scope:
  "(fetch_url G index_url (Some [(py ''User-Agent'', user_agent)]) retries timeout request_delay
        (emit (EMakedirs output_dir) w) = (Some html, w1)
      \<and> html \<noteq> []
      \<and> soup_find (has_id (py ''tbchapterlist'')) (parse html) = None
    \<longrightarrow>
      process_chapters G parse urljoin T index_url output_dir start_from max_chapters translate
          src_lang dest_lang request_delay retries timeout user_agent w =
        (Inl (RuntimeError (py ''Could not find #tbchapterlist '' @ [0x2013]
           @ py '' check the page structure'')), w1)
      \<and> chapters_started (trace w1) = chapters_started (trace w)
      \<and> artifacts (trace w1) = artifacts (trace w))
   \<and>
   (\<not> (case max_chapters of None \<Rightarrow> False | Some m \<Rightarrow> start_from + m \<le> idx)
      \<and> fetch_url G (chap_url chap) (Some hdrs) retries timeout request_delay
          (emit (EChapter idx (chap_title chap)) v) = (Some chapter_html, v1)
      \<and> chapter_html \<noteq> []
      \<and> soup_find is_content_div (parse chapter_html) = None
    \<longrightarrow>
      process_loop G parse translator output_dir start_from max_chapters translate
          request_delay retries timeout hdrs ((idx, chap) # rest) v =
        process_loop G parse translator output_dir start_from max_chapters translate
          request_delay retries timeout hdrs rest v1
      \<and> artifacts (trace v1) = artifacts (trace v))"
proof -
  let ?h = "[(py ''User-Agent'', user_agent)]"
  have index: "process_chapters G parse urljoin T index_url output_dir start_from max_chapters
          translate src_lang dest_lang request_delay retries timeout user_agent w =
        (Inl (RuntimeError (py ''Could not find #tbchapterlist '' @ [0x2013]
           @ py '' check the page structure'')), w1)
      \<and> chapters_started (trace w1) = chapters_started (trace w)
      \<and> artifacts (trace w1) = artifacts (trace w)"
    if f: "fetch_url G index_url (Some ?h) retries timeout request_delay
        (emit (EMakedirs output_dir) w) = (Some html, w1)"
      and n: "html \<noteq> []"
      and c: "soup_find (has_id (py ''tbchapterlist'')) (parse html) = None"
  proof -
    have run: "process_chapters G parse urljoin T index_url output_dir start_from max_chapters
          translate src_lang dest_lang request_delay retries timeout user_agent w =
        (Inl (RuntimeError (py ''Could not find #tbchapterlist '' @ [0x2013]
           @ py '' check the page structure'')), w1)"
      using f n c by (simp add: process_chapters_def get_chapter_links_def Let_def)
    have cs: "chapters_started (trace w1) = chapters_started (trace w)"
      using fetch_url_chapters_started
        [of G index_url "Some ?h" retries timeout request_delay "emit (EMakedirs output_dir) w"] f
      by (simp add: emit_def chapters_started_append)
    have ar: "artifacts (trace w1) = artifacts (trace w)"
      using fetch_url_artifacts
        [of G index_url "Some ?h" retries timeout request_delay "emit (EMakedirs output_dir) w"] f
      by (simp add: emit_def artifacts_append)
    show ?thesis using run cs ar by simp
  qed
  have chap_case: "process_loop G parse translator output_dir start_from max_chapters translate
          request_delay retries timeout hdrs ((idx, chap) # rest) v =
        process_loop G parse translator output_dir start_from max_chapters translate
          request_delay retries timeout hdrs rest v1
      \<and> artifacts (trace v1) = artifacts (trace v)"
    if b: "\<not> (case max_chapters of None \<Rightarrow> False | Some m \<Rightarrow> start_from + m \<le> idx)"
      and f: "fetch_url G (chap_url chap) (Some hdrs) retries timeout request_delay
          (emit (EChapter idx (chap_title chap)) v) = (Some chapter_html, v1)"
      and n: "chapter_html \<noteq> []"
      and c: "soup_find is_content_div (parse chapter_html) = None"
  proof -
    have body: "process_chapter G parse translator output_dir translate request_delay retries
        timeout hdrs idx chap v = v1"
      using f n c extract_chapter_text_no_container [of parse chapter_html]
      by (simp add: process_chapter_def Let_def)
    have ar: "artifacts (trace v1) = artifacts (trace v)"
      using fetch_url_artifacts
        [of G "chap_url chap" "Some hdrs" retries timeout request_delay
          "emit (EChapter idx (chap_title chap)) v"] f
      by (simp add: emit_def artifacts_append)
    show ?thesis using b body ar by simp
  qed
  show ?thesis using index chap_case by blast
qed


lemma site_fetch_other:
  assumes "url \<noteq> py ''http://x/''" and "url \<noteq> py ''http://x/4.html''"
  shows "fetch_url site_get url hdrs 3 15 3 w =
     (Some (py ''other''), emit (EGet url) (w\<lparr>gets := Suc (gets w)\<rparr>))"
proof -
  have g: "site_get (gets w) url hdrs 15 = Resp 200 (py ''other'')"
    using assms by (simp add: site_get_def)
  show ?thesis
    using fetch_url_first_ok [where G = site_get and w = w and url = url and hdrs = hdrs
        and timeout = 15 and body = "py ''other''" and retries = 3 and delay = 3] g
    by simp
qed

lemma site_parse_other: "site_parse (py ''other'') = Tag (py ''[document]'') [] []"
  by (simp add: site_parse_def py_def)

theorem structure_error_scope_witness:
  "fetch_url site_get (py ''http://x/nolist'') (Some [(py ''User-Agent'', py ''ua'')]) 3 15 3
       (emit (EMakedirs (py ''out'')) fresh) =
     (Some (py ''other''),
      \<lparr>gets = 1, translate_calls = 0,
       trace = [EMakedirs (py ''out''), EGet (py ''http://x/nolist'')]\<rparr>) \<and>
   py ''other'' \<noteq> [] \<and>
   soup_find (has_id (py ''tbchapterlist'')) (site_parse (py ''other'')) = None \<and>
   process_chapters site_get site_parse join_relative no_translator (py ''http://x/nolist'')
       (py ''out'') 0 None False (py ''zh-TW'') (py ''en'') 3 3 15 (py ''ua'') fresh =
     (Inl (RuntimeError (py ''Could not find #tbchapterlist '' @ [0x2013]
        @ py '' check the page structure'')),
      \<lparr>gets = 1, translate_calls = 0,
       trace = [EMakedirs (py ''out''), EGet (py ''http://x/nolist'')]\<rparr>) \<and>
   fetch_url site_get (py ''http://x/1.html'') (Some [(py ''User-Agent'', py ''ua'')]) 3 15 3
       (emit (EChapter 0 (py ''One'')) fresh) =
     (Some (py ''other''),
      \<lparr>gets = 1, translate_calls = 0,
       trace = [EChapter 0 (py ''One''), EGet (py ''http://x/1.html'')]\<rparr>) \<and>
   soup_find is_content_div (site_parse (py ''other'')) = None \<and>
   process_loop site_get site_parse None (py ''out'') 0 None False 3 3 15
       [(py ''User-Agent'', py ''ua'')] [(0, site_links ! 0), (1, site_links ! 1)] fresh =
     \<lparr>gets = 2, translate_calls = 0,
      trace = [EChapter 0 (py ''One''), EGet (py ''http://x/1.html''),
               EChapter 1 (py ''Four''), EGet (py ''http://x/4.html''),
               EWrite (py ''out/0002_Four.txt'') (py ''hello'' @ nl @ py ''world''),
               ESleep 3]\<rparr>"
proof -
  let ?ua = "[(py ''User-Agent'', py ''ua'')]"
  let ?one = "\<lparr>chap_title = py ''One'', chap_url = py ''http://x/1.html''\<rparr>"
  let ?four = "\<lparr>chap_title = py ''Four'', chap_url = py ''http://x/4.html''\<rparr>"
  let ?w1 = "\<lparr>gets = 1, translate_calls = 0,
       trace = [EMakedirs (py ''out''), EGet (py ''http://x/nolist'')]\<rparr>"
  let ?v1 = "\<lparr>gets = 1, translate_calls = 0,
       trace = [EChapter 0 (py ''One''), EGet (py ''http://x/1.html'')]\<rparr>"
  let ?final = "\<lparr>gets = 2, translate_calls = 0,
      trace = [EChapter 0 (py ''One''), EGet (py ''http://x/1.html''),
               EChapter 1 (py ''Four''), EGet (py ''http://x/4.html''),
               EWrite (py ''out/0002_Four.txt'') (py ''hello'' @ nl @ py ''world''),
               ESleep 3]\<rparr>"
  have a1: "fetch_url site_get (py ''http://x/nolist'') (Some ?ua) 3 15 3
       (emit (EMakedirs (py ''out'')) fresh) = (Some (py ''other''), ?w1)"
    by (subst site_fetch_other) (simp_all add: py_def emit_def fresh_def)
  have a2: "py ''other'' \<noteq> []" by (simp add: py_def)
  have a3: "soup_find (has_id (py ''tbchapterlist'')) (site_parse (py ''other'')) = None"
    unfolding site_parse_other by (simp add: soup_find_def)
  have b1: "fetch_url site_get (py ''http://x/1.html'') (Some ?ua) 3 15 3
       (emit (EChapter 0 (py ''One'')) fresh) = (Some (py ''other''), ?v1)"
    by (subst site_fetch_other) (simp_all add: py_def emit_def fresh_def)
  have b3: "soup_find is_content_div (site_parse (py ''other'')) = None"
    unfolding site_parse_other by (simp add: soup_find_def)
  note T = structure_error_scope [where G = site_get and parse = site_parse
      and index_url = "py ''http://x/nolist''" and user_agent = "py ''ua''" and retries = 3
      and timeout = 15 and request_delay = 3 and output_dir = "py ''out''" and w = fresh
      and html = "py ''other''" and ?w1.0 = ?w1 and urljoin = join_relative
      and T = no_translator and start_from = 0 and max_chapters = None and translate = False
      and src_lang = "py ''zh-TW''" and dest_lang = "py ''en''"
      and idx = 0 and chap = ?one and hdrs = ?ua and v = fresh
      and chapter_html = "py ''other''" and ?v1.0 = ?v1 and translator = None
      and rest = "[(1, ?four)]"]
  have A: "process_chapters site_get site_parse join_relative no_translator
       (py ''http://x/nolist'') (py ''out'') 0 None False (py ''zh-TW'') (py ''en'') 3 3 15
       (py ''ua'') fresh =
     (Inl (RuntimeError (py ''Could not find #tbchapterlist '' @ [0x2013]
        @ py '' check the page structure'')), ?w1)"
    using T a1 a2 a3 by simp
  have B: "process_loop site_get site_parse None (py ''out'') 0 None False 3 3 15 ?ua
       [(0, ?one), (1, ?four)] fresh =
     process_loop site_get site_parse None (py ''out'') 0 None False 3 3 15 ?ua
       [(1, ?four)] ?v1"
    using T b1 a2 b3 by simp
  have C: "process_loop site_get site_parse None (py ''out'') 0 None False 3 3 15 ?ua
       [(1, ?four)] ?v1 = ?final"
    by (simp add: site_chapter_written)
  have D: "[(0, site_links ! 0), (1, site_links ! 1)] = [(0, ?one), (1, ?four)]"
    by (simp add: site_links_def)
  show ?thesis
    unfolding D using a1 a2 a3 A b1 b3 B C by simp
qed

section \<open>Properties of process_chapters: determinism\<close>

lemma alike_emit: "alike w w' \<Longrightarrow> alike (emit e w) (emit e w')"
  by (simp add: alike_def emit_def artifacts_append)

lemma alike_sleep: "alike w w' \<Longrightarrow> alike (sleep d w) (sleep d w')"
  by (simp add: sleep_def alike_emit)

lemma fetch_attempts_gets_only:
  "\<forall>w'. gets w = gets w' \<longrightarrow>
     fst (fetch_attempts G url hdrs retries timeout delay attempt w) =
       fst (fetch_attempts G url hdrs retries timeout delay attempt w') \<and>
     gets (snd (fetch_attempts G url hdrs retries timeout delay attempt w)) =
       gets (snd (fetch_attempts G url hdrs retries timeout delay attempt w'))"
proof (induction G url hdrs retries timeout delay attempt w rule: fetch_attempts.induct)
  case (1 G url hdrs retries timeout delay attempt w)
  show ?case
  proof (intro allI impI)
    fix w' :: world
    assume g: "gets w = gets w'"
    let ?w1 = "emit (EGet url) (w\<lparr>gets := Suc (gets w)\<rparr>)"
    let ?w1' = "emit (EGet url) (w'\<lparr>gets := Suc (gets w')\<rparr>)"
    have g1: "gets ?w1 = gets ?w1'" using g by (simp add: emit_def)
    show "fst (fetch_attempts G url hdrs retries timeout delay attempt w) =
       fst (fetch_attempts G url hdrs retries timeout delay attempt w') \<and>
     gets (snd (fetch_attempts G url hdrs retries timeout delay attempt w)) =
       gets (snd (fetch_attempts G url hdrs retries timeout delay attempt w'))"
    proof (cases "retries < attempt")
      case True
      then show ?thesis using g
        by (subst fetch_attempts.simps, subst (2) fetch_attempts.simps,
            subst (3) fetch_attempts.simps, subst (4) fetch_attempts.simps) simp
    next
      case False
      show ?thesis
      proof (cases "G (gets w) url hdrs timeout")
        case (Resp code body)
        have l: "fetch_attempts G url hdrs retries timeout delay attempt w =
            (if code = 200 then Some body else None, ?w1)"
          using False Resp by (subst fetch_attempts.simps) (simp add: requests_get_def)
        have r: "fetch_attempts G url hdrs retries timeout delay attempt w' =
            (if code = 200 then Some body else None, ?w1')"
          using False Resp g by (subst fetch_attempts.simps) (simp add: requests_get_def)
        show ?thesis unfolding l r using g1 by simp
      next
        case TransportError
        show ?thesis
        proof (cases "attempt = retries")
          case True
          have l: "fetch_attempts G url hdrs retries timeout delay attempt w = (None, ?w1)"
            using True TransportError
            by (subst fetch_attempts.simps) (simp add: requests_get_def)
          have r: "fetch_attempts G url hdrs retries timeout delay attempt w' = (None, ?w1')"
            using True TransportError g
            by (subst fetch_attempts.simps) (simp add: requests_get_def)
          show ?thesis unfolding l r using g1 by simp
        next
          case ne: False
          have rq: "requests_get G url hdrs timeout w = (TransportError, ?w1)"
            using TransportError by (simp add: requests_get_def)
          have l: "fetch_attempts G url hdrs retries timeout delay attempt w =
              fetch_attempts G url hdrs retries timeout delay (attempt + 1) (sleep delay ?w1)"
            using False ne rq by (subst fetch_attempts.simps) simp
          have r: "fetch_attempts G url hdrs retries timeout delay attempt w' =
              fetch_attempts G url hdrs retries timeout delay (attempt + 1) (sleep delay ?w1')"
            using False ne TransportError g
            by (subst fetch_attempts.simps) (simp add: requests_get_def)
          have gs: "gets (sleep delay ?w1) = gets (sleep delay ?w1')"
            using g1 by (simp add: sleep_def emit_def)
          show ?thesis
            unfolding l r
            using "1.IH" [OF False rq [symmetric] refl ne] gs by blast
        qed
      qed
    qed
  qed
qed

lemma fetch_url_alike:
  assumes "alike w w'"
  shows "fst (fetch_url G url hdrs retries timeout delay w) =
           fst (fetch_url G url hdrs retries timeout delay w')
     \<and> alike (snd (fetch_url G url hdrs retries timeout delay w))
              (snd (fetch_url G url hdrs retries timeout delay w'))"
proof -
  have g: "gets w = gets w'" and a: "artifacts (trace w) = artifacts (trace w')"
    using assms by (simp_all add: alike_def)
  have "fst (fetch_url G url hdrs retries timeout delay w) =
           fst (fetch_url G url hdrs retries timeout delay w')
     \<and> gets (snd (fetch_url G url hdrs retries timeout delay w)) =
         gets (snd (fetch_url G url hdrs retries timeout delay w'))"
    unfolding fetch_url_def
    using fetch_attempts_gets_only [of w G url hdrs retries timeout delay 1] g by blast
  then show ?thesis
    using a by (simp add: alike_def fetch_url_artifacts)
qed

lemma process_chapter_alike:
  assumes "alike w w'"
  shows "alike
     (process_chapter G parse translator output_dir False request_delay retries timeout
        hdrs idx chap w)
     (process_chapter G parse translator' output_dir False request_delay retries timeout
        hdrs idx chap w')"
proof -
  let ?w0 = "emit (EChapter idx (chap_title chap)) w"
  let ?w0' = "emit (EChapter idx (chap_title chap)) w'"
  obtain html w1 where f:
    "fetch_url G (chap_url chap) (Some hdrs) retries timeout request_delay ?w0 = (html, w1)"
    by (cases "fetch_url G (chap_url chap) (Some hdrs) retries timeout request_delay ?w0")
  obtain html' w1' where f':
    "fetch_url G (chap_url chap) (Some hdrs) retries timeout request_delay ?w0' = (html', w1')"
    by (cases "fetch_url G (chap_url chap) (Some hdrs) retries timeout request_delay ?w0'")
  have e: "html = html'" and s: "alike w1 w1'"
    using fetch_url_alike [OF alike_emit [OF assms], of G "chap_url chap" "Some hdrs" retries
        timeout request_delay "EChapter idx (chap_title chap)"] f f'
    by simp_all
  have f2: "fetch_url G (chap_url chap) (Some hdrs) retries timeout request_delay ?w0' = (html, w1')"
    using f' e by simp
  show ?thesis
  proof (cases html)
    case None
    then show ?thesis using f f2 s by (simp add: process_chapter_def)
  next
    case (Some h)
    show ?thesis
    proof (cases "h = []")
      case True
      then show ?thesis using f f2 s Some by (simp add: process_chapter_def)
    next
      case False
      show ?thesis
      proof (cases "extract_chapter_text parse h")
        case (Inl err)
        then show ?thesis using f f2 s Some False by (simp add: process_chapter_def)
      next
        case (Inr zh_text)
        then show ?thesis using f f2 s Some False
          by (simp add: process_chapter_def Let_def alike_sleep alike_emit)
      qed
    qed
  qed
qed

lemma process_loop_alike:
  "alike w w' \<Longrightarrow>
   alike
     (process_loop G parse translator output_dir start_from max_chapters False request_delay
        retries timeout hdrs chapters w)
     (process_loop G parse translator' output_dir start_from max_chapters False request_delay
        retries timeout hdrs chapters w')"
proof (induction chapters arbitrary: w w')
  case Nil
  then show ?case by simp
next
  case (Cons c chapters)
  obtain idx chap where c: "c = (idx, chap)" by (cases c)
  show ?case
    unfolding c
    using Cons.prems Cons.IH [OF process_chapter_alike [OF Cons.prems]]
    by simp
qed

lemma get_chapter_links_alike:
  assumes "alike w w'"
  shows "fst (get_chapter_links G parse urljoin index_url hdrs retries timeout delay w) =
           fst (get_chapter_links G parse urljoin index_url hdrs retries timeout delay w')
     \<and> alike (snd (get_chapter_links G parse urljoin index_url hdrs retries timeout delay w))
              (snd (get_chapter_links G parse urljoin index_url hdrs retries timeout delay w'))"
proof -
  obtain html w1 where f: "fetch_url G index_url hdrs retries timeout delay w = (html, w1)"
    by (cases "fetch_url G index_url hdrs retries timeout delay w")
  obtain html' w1' where f': "fetch_url G index_url hdrs retries timeout delay w' = (html', w1')"
    by (cases "fetch_url G index_url hdrs retries timeout delay w'")
  have e: "html = html'" and s: "alike w1 w1'"
    using fetch_url_alike [OF assms, of G index_url hdrs retries timeout delay] f f'
    by simp_all
  have f2: "fetch_url G index_url hdrs retries timeout delay w' = (html, w1')"
    using f' e by simp
  show ?thesis
    using f f2 s
    by (simp add: get_chapter_links_def split: option.split)
qed

text \<open>
  Claim C9. With translation disabled, two runs of \<open>process_chapters\<close> on the same index
  URL, the same transport at the same point of its answers, the same parser and the same
  options end in the same way (both return, or both raise the same error) and write the
  same files in the same order, path by path and content by content. Nothing else has an
  influence: not the translation backend, not the languages, not the translator calls or
  the sleeps that came before.
\<close>

theorem process_chapters_deterministic:
  assumes "alike w w'"
  shows "fst (process_chapters G parse urljoin T index_url output_dir start_from max_chapters
                False src_lang dest_lang request_delay retries timeout user_agent w) =
         fst (process_chapters G parse urljoin T' index_url output_dir start_from max_chapters
                False src_lang' dest_lang' request_delay retries timeout user_agent w')
     \<and> artifacts (trace (snd (process_chapters G parse urljoin T index_url output_dir
                start_from max_chapters False src_lang dest_lang request_delay retries
                timeout user_agent w))) =
         artifacts (trace (snd (process_chapters G parse urljoin T' index_url output_dir
                start_from max_chapters False src_lang' dest_lang' request_delay retries
                timeout user_agent w')))"
proof -
  let ?h = "Some [(py ''User-Agent'', user_agent)]"
  let ?w0 = "emit (EMakedirs output_dir) w"
  let ?w0' = "emit (EMakedirs output_dir) w'"
  obtain r w1 where g:
    "get_chapter_links G parse urljoin index_url ?h retries timeout request_delay ?w0 = (r, w1)"
    by (cases "get_chapter_links G parse urljoin index_url ?h retries timeout request_delay ?w0")
  obtain r' w1' where g':
    "get_chapter_links G parse urljoin index_url ?h retries timeout request_delay ?w0' = (r', w1')"
    by (cases "get_chapter_links G parse urljoin index_url ?h retries timeout request_delay ?w0'")
  have e: "r = r'" and s: "alike w1 w1'"
    using get_chapter_links_alike [OF alike_emit [OF assms], of G parse urljoin index_url ?h
        retries timeout request_delay "EMakedirs output_dir"] g g'
    by simp_all
  have g2: "get_chapter_links G parse urljoin index_url ?h retries timeout request_delay ?w0'
      = (r, w1')"
    using g' e by simp
  have both: "fst (process_chapters G parse urljoin T index_url output_dir start_from
                max_chapters False src_lang dest_lang request_delay retries timeout user_agent w) =
         fst (process_chapters G parse urljoin T' index_url output_dir start_from max_chapters
                False src_lang' dest_lang' request_delay retries timeout user_agent w')
     \<and> alike (snd (process_chapters G parse urljoin T index_url output_dir
                start_from max_chapters False src_lang dest_lang request_delay retries
                timeout user_agent w))
         (snd (process_chapters G parse urljoin T' index_url output_dir
                start_from max_chapters False src_lang' dest_lang' request_delay retries
                timeout user_agent w'))"
  proof (cases r)
    case (Inl err)
    then show ?thesis using g g2 s by (simp add: process_chapters_def Let_def)
  next
    case (Inr links)
    then show ?thesis using g g2 s
      by (simp add: process_chapters_def Let_def process_loop_alike)
  qed
  then show ?thesis by (simp add: alike_def)
qed


lemma site_run:
  "process_chapters site_get site_parse join_relative T (py ''http://x/'') (py ''out'') 0 None
       False src_lang dest_lang 3 3 15 (py ''ua'') w =
     (Inr (),
      w\<lparr>gets := gets w + 3,
        trace := trace w @
          [EMakedirs (py ''out''), EGet (py ''http://x/''),
           EChapter 0 (py ''One''), EGet (py ''http://x/1.html''),
           EChapter 1 (py ''Four''), EGet (py ''http://x/4.html''),
           EWrite (py ''out/0002_Four.txt'') (py ''hello'' @ nl @ py ''world''), ESleep 3]\<rparr>)"
proof -
  let ?one = "\<lparr>chap_title = py ''One'', chap_url = py ''http://x/1.html''\<rparr>"
  let ?four = "\<lparr>chap_title = py ''Four'', chap_url = py ''http://x/4.html''\<rparr>"
  have en: "enumerate_from 0 (slice_from site_links 0) = [(0, ?one), (1, ?four)]"
    by (simp add: slice_from_def site_links_def)
  have len: "\<not> int (length site_links) \<le> 0" by (simp add: site_links_def)
  show ?thesis
    unfolding process_chapters_def Let_def site_get_chapter_links
    using len
    by (simp add: en site_chapter_skipped site_chapter_written emit_def)
qed

theorem process_chapters_deterministic_witness:
  "alike fresh used \<and>
   artifacts (trace (snd (process_chapters site_get site_parse join_relative no_translator
       (py ''http://x/'') (py ''out'') 0 None False (py ''zh-TW'') (py ''en'') 3 3 15
       (py ''ua'') fresh))) =
     [(py ''out/0002_Four.txt'', py ''hello'' @ nl @ py ''world'')] \<and>
   artifacts (trace (snd (process_chapters site_get site_parse join_relative echo_translator
       (py ''http://x/'') (py ''out'') 0 None False (py ''ja'') (py ''fr'') 3 3 15
       (py ''ua'') used))) =
     [(py ''out/0002_Four.txt'', py ''hello'' @ nl @ py ''world'')]"
proof -
  have al: "alike fresh used" by (simp add: alike_def fresh_def used_def)
  have first: "artifacts (trace (snd (process_chapters site_get site_parse join_relative
       no_translator (py ''http://x/'') (py ''out'') 0 None False (py ''zh-TW'') (py ''en'')
       3 3 15 (py ''ua'') fresh))) =
     [(py ''out/0002_Four.txt'', py ''hello'' @ nl @ py ''world'')]"
    unfolding site_run by (simp add: fresh_def)
  have same: "artifacts (trace (snd (process_chapters site_get site_parse join_relative
       no_translator (py ''http://x/'') (py ''out'') 0 None False (py ''zh-TW'') (py ''en'')
       3 3 15 (py ''ua'') fresh))) =
     artifacts (trace (snd (process_chapters site_get site_parse join_relative echo_translator
       (py ''http://x/'') (py ''out'') 0 None False (py ''ja'') (py ''fr'') 3 3 15
       (py ''ua'') used)))"
    by (rule conjunct2 [OF process_chapters_deterministic [OF al]])
  show ?thesis
    using al first same by simp
qed

end
